theory Spec2Isabelle
  imports Complex_Main "HOL-Library.Product_Lexorder" "HOL-Library.List_Lexorder"
    "HOL-Library.Char_ord"
begin

section \<open>Numeric conventions\<close>

text \<open>
  The Python sources compute with IEEE doubles. The embedding idealises a float as an
  exact rational (\<^typ>\<open>rat\<close>); a NaN, where the code produces one on purpose, is an
  explicit constructor. Timestamps are integers (pandas keeps nanoseconds since the epoch)
  where only slot arithmetic is done on them, and rational seconds where travel times
  are added to them.
\<close>

datatype py_error = ValueError string | KeyError string | IndexError

datatype metric = NaN | Val rat

section \<open>Task 2: threshold rule classifier (szeto\_model\_2026/src/task2\_classifier.py)\<close>

record slot_row =
  row_count :: rat
  row_r :: rat
  row_p1 :: rat
  row_w :: int

record thresholds =
  theta1 :: rat
  theta2 :: rat
  theta3 :: rat
  alpha1 :: rat
  alpha2 :: rat
  alpha3 :: rat
  beta1 :: rat

text \<open>\<open>classify_interval(row, thr)\<close>: the chain of early returns, in the source's order.\<close>

definition classify_interval :: "slot_row \<Rightarrow> thresholds \<Rightarrow> string" where
  "classify_interval row thr =
     (let C = row_count row; r = row_r row; p1 = row_p1 row; w = row_w row in
      if C < theta1 thr then ''Night Idle''
      else if w = 0 then ''Weekend Low-Demand''
      else if C \<ge> theta2 thr \<and> r \<ge> alpha1 thr \<and> p1 \<ge> beta1 thr then ''Morning Up-Peak''
      else if C \<ge> theta3 thr \<and> r \<le> alpha2 thr then ''Evening Down-Peak''
      else if C \<ge> theta2 thr \<and> alpha2 thr < r \<and> r < alpha3 thr then ''Lunch Down-Peak''
      else ''Afternoon Mixed'')"

text \<open>
  A prioritised rule list and its first-match-wins reading: the label of the first rule
  whose predicate holds, the default label when none does.
\<close>

fun first_match :: "(('a \<Rightarrow> bool) \<times> string) list \<Rightarrow> string \<Rightarrow> 'a \<Rightarrow> string" where
  "first_match [] dflt x = dflt"
| "first_match ((p, l) # rs) dflt x = (if p x then l else first_match rs dflt x)"

text \<open>The rules as the code tests them: the weekend rule looks at the regime flag only.\<close>

definition code_rules :: "thresholds \<Rightarrow> ((slot_row \<Rightarrow> bool) \<times> string) list" where
  "code_rules thr =
     [(\<lambda>x. row_count x < theta1 thr, ''Night Idle''),
      (\<lambda>x. row_w x = 0, ''Weekend Low-Demand''),
      (\<lambda>x. row_count x \<ge> theta2 thr \<and> row_r x \<ge> alpha1 thr \<and> row_p1 x \<ge> beta1 thr,
         ''Morning Up-Peak''),
      (\<lambda>x. row_count x \<ge> theta3 thr \<and> row_r x \<le> alpha2 thr, ''Evening Down-Peak''),
      (\<lambda>x. row_count x \<ge> theta2 thr \<and> alpha2 thr < row_r x \<and> row_r x < alpha3 thr,
         ''Lunch Down-Peak'')]"

text \<open>
  The rules as the specification words them. Its second rule is "weekend and low"; low is
  read as "below the high-activity threshold \<open>theta2\<close>", the only reading under which
  the rule can fire after the Idle rule has been passed.
\<close>

definition spec_rules :: "thresholds \<Rightarrow> ((slot_row \<Rightarrow> bool) \<times> string) list" where
  "spec_rules thr =
     [(\<lambda>x. row_count x < theta1 thr, ''Night Idle''),
      (\<lambda>x. row_w x = 0 \<and> row_count x < theta2 thr, ''Weekend Low-Demand''),
      (\<lambda>x. row_count x \<ge> theta2 thr \<and> row_r x \<ge> alpha1 thr \<and> row_p1 x \<ge> beta1 thr,
         ''Morning Up-Peak''),
      (\<lambda>x. row_count x \<ge> theta3 thr \<and> row_r x \<le> alpha2 thr, ''Evening Down-Peak''),
      (\<lambda>x. row_count x \<ge> theta2 thr \<and> alpha2 thr < row_r x \<and> row_r x < alpha3 thr,
         ''Lunch Down-Peak'')]"

definition default_thresholds :: "rat \<Rightarrow> rat \<Rightarrow> rat \<Rightarrow> thresholds" where
  "default_thresholds t1 t2 t3 =
     \<lparr>theta1 = t1, theta2 = t2, theta3 = t3,
      alpha1 = 6 / 10, alpha2 = 4 / 10, alpha3 = 6 / 10, beta1 = 3 / 10\<rparr>"


section \<open>Task 3: zone allocation and repositioning (szeto\_model\_2026/src/task3\_parking.py)\<close>

definition ZONES :: "string list" where
  "ZONES = [''Lobby'', ''Mid'', ''Upper'']"

text \<open>\<open>d.get(k, dflt)\<close> on a dictionary held as a map.\<close>

definition dget :: "(string \<rightharpoonup> 'v) \<Rightarrow> string \<Rightarrow> 'v \<Rightarrow> 'v" where
  "dget d k dflt = (case d k of None \<Rightarrow> dflt | Some v \<Rightarrow> v)"

text \<open>\<open>int(x)\<close> on a float: truncation towards zero.\<close>

definition py_int :: "rat \<Rightarrow> int" where
  "py_int x = (if 0 \<le> x then \<lfloor>x\<rfloor> else \<lceil>x\<rceil>)"

text \<open>
  The six templates, each a dictionary in insertion order (Lobby, Mid, Upper); a state
  that is no key falls back to the Afternoon Mixed template.
\<close>

definition mk_tpl :: "rat \<Rightarrow> rat \<Rightarrow> rat \<Rightarrow> (string \<times> rat) list" where
  "mk_tpl a b c = [(''Lobby'', a), (''Mid'', b), (''Upper'', c)]"

definition templates :: "string \<rightharpoonup> (string \<times> rat) list" where
  "templates = map_of
     [(''Morning Up-Peak'', mk_tpl (7 / 10) (25 / 100) (5 / 100)),
      (''Lunch Down-Peak'', mk_tpl (2 / 10) (6 / 10) (2 / 10)),
      (''Evening Down-Peak'', mk_tpl (5 / 100) (25 / 100) (7 / 10)),
      (''Afternoon Mixed'', mk_tpl (33 / 100) (34 / 100) (33 / 100)),
      (''Night Idle'', mk_tpl (6 / 10) (2 / 10) (2 / 10)),
      (''Weekend Low-Demand'', mk_tpl (5 / 10) (3 / 10) (2 / 10))]"

text \<open>\<open>tpl[z]\<close> for a zone of \<open>ZONES\<close>; every template has the three keys.\<close>

definition zval :: "(string \<times> rat) list \<Rightarrow> string \<Rightarrow> rat" where
  "zval d z = (case map_of d z of None \<Rightarrow> 0 | Some v \<Rightarrow> v)"

text \<open>\<open>max(tpl, key=tpl.get)\<close>: the first key, in insertion order, of maximal value.\<close>

fun max_key :: "(string \<times> rat) list \<Rightarrow> string" where
  "max_key [] = []"
| "max_key [(k, v)] = k"
| "max_key ((k, v) # kvs) = (if list_all (\<lambda>u. u \<le> v) (map snd kvs) then k else max_key kvs)"

definition proportions_from_state :: "string \<Rightarrow> rat \<Rightarrow> (string \<times> rat) list" where
  "proportions_from_state state y_hat =
     (let tpl = (case templates state of
                   None \<Rightarrow> mk_tpl (33 / 100) (34 / 100) (33 / 100) | Some t \<Rightarrow> t);
          adj = (if y_hat \<le> 1 then
                   map (\<lambda>z. (z, if z \<noteq> ''Lobby'' then zval tpl z * (4 / 10)
                                  else zval tpl z + 4 / 10)) ZONES
                 else if y_hat \<ge> 10 then
                   (let primary = max_key tpl in
                    map (\<lambda>z. (z, if z = primary then zval tpl z + (1 / 10) * zval tpl primary
                                   else zval tpl z - (5 / 100) * zval tpl primary)) ZONES)
                 else tpl);
          total = sum_list (map snd adj)
      in map (\<lambda>z. (z, zval adj z / total)) ZONES)"

text \<open>
  \<open>compute_desired_allocation\<close>: floor every share, then hand the remaining cars to the
  zones of largest fractional part, ties by position in \<open>ZONES\<close>. \<open>fracs[i]\<close> raises
  IndexError past the third entry.
\<close>

fun zone_index :: "string \<Rightarrow> nat" where
  "zone_index z = (if z = ''Lobby'' then 0 else if z = ''Mid'' then 1 else 2)"

fun bump_first :: "string list \<Rightarrow> nat \<Rightarrow> (string \<rightharpoonup> int) \<Rightarrow> py_error + (string \<rightharpoonup> int)" where
  "bump_first order 0 floored = Inr floored"
| "bump_first [] (Suc n) floored = Inl IndexError"
| "bump_first (z # order) (Suc n) floored =
     bump_first order n (floored(z \<mapsto> dget floored z 0 + 1))"

definition compute_desired_allocation ::
  "string \<Rightarrow> rat \<Rightarrow> int \<Rightarrow> py_error + (string \<rightharpoonup> int)" where
  "compute_desired_allocation state y_hat n_elevators =
     (let props = proportions_from_state state y_hat;
          raw = (\<lambda>z. zval props z * of_int n_elevators);
          floored = map_of (map (\<lambda>z. (z, py_int (raw z))) ZONES);
          remaining = n_elevators - sum_list (map (\<lambda>z. py_int (raw z)) ZONES);
          fracs = sort_key (\<lambda>(z, f). (- f, zone_index z))
                    (map (\<lambda>z. (z, raw z - of_int (py_int (raw z)))) ZONES)
      in bump_first (map fst fracs) (nat remaining) floored)"

text \<open>
  \<open>compute_reposition_moves\<close>. The three loops of the source, in its order: count the
  current zones, list surplus and deficit zones, collect candidate indices, then pair
  each deficit entry with the last index of the first zone that still has a candidate.
\<close>

definition count_zones :: "string list \<Rightarrow> (string \<rightharpoonup> int)" where
  "count_zones cur =
     fold (\<lambda>z m. m(z \<mapsto> dget m z 0 + 1)) cur (map_of (map (\<lambda>z. (z, 0)) ZONES))"

definition surplus_deficit ::
  "(string \<rightharpoonup> int) \<Rightarrow> (string \<rightharpoonup> int) \<Rightarrow> string list \<times> string list" where
  "surplus_deficit cc desired =
     fold (\<lambda>z (s, d).
             let diff = dget cc z 0 - dget desired z 0 in
             if diff > 0 then (s @ replicate (nat diff) z, d)
             else if diff < 0 then (s, d @ replicate (nat (- diff)) z)
             else (s, d))
          ZONES ([], [])"

fun collect_indices ::
  "string list \<Rightarrow> (string \<rightharpoonup> int) \<Rightarrow> (string \<rightharpoonup> int) \<Rightarrow> (nat \<times> string) list \<Rightarrow>
   (string \<rightharpoonup> nat list) \<Rightarrow> py_error + (string \<rightharpoonup> nat list)" where
  "collect_indices surplus cc desired [] ibz = Inr ibz"
| "collect_indices surplus cc desired ((i, z) # rest) ibz =
     (if z \<in> set surplus \<or> dget cc z 0 > dget desired z 0 then
        (case ibz z of
           None \<Rightarrow> Inl (KeyError z)
         | Some l \<Rightarrow> collect_indices surplus cc desired rest (ibz(z \<mapsto> l @ [i])))
      else collect_indices surplus cc desired rest ibz)"

fun pair_moves ::
  "string list \<Rightarrow> (string \<rightharpoonup> nat list) \<Rightarrow> (string \<rightharpoonup> int) \<Rightarrow> (nat \<times> string) list \<Rightarrow>
   (nat \<times> string) list" where
  "pair_moves [] ibz cc moves = moves"
| "pair_moves (target_zone # ds) ibz cc moves =
     (case find (\<lambda>z. dget ibz z [] \<noteq> []) ZONES of
        None \<Rightarrow> moves
      | Some src \<Rightarrow>
          (let l = dget ibz src [];
               idx = last l;
               cc1 = cc(src \<mapsto> dget cc src 0 - 1);
               cc2 = cc1(target_zone \<mapsto> dget cc1 target_zone 0 + 1)
           in pair_moves ds (ibz(src \<mapsto> butlast l)) cc2 (moves @ [(idx, target_zone)])))"

definition compute_reposition_moves ::
  "string list \<Rightarrow> (string \<rightharpoonup> int) \<Rightarrow> py_error + (nat \<times> string) list" where
  "compute_reposition_moves current_alloc_list desired_alloc =
     (let curr_counts = count_zones current_alloc_list;
          (surplus_zones, deficit_zones) = surplus_deficit curr_counts desired_alloc
      in case collect_indices surplus_zones curr_counts desired_alloc
                (zip [0 ..< length current_alloc_list] current_alloc_list)
                (map_of (map (\<lambda>z. (z, [])) ZONES)) of
           Inl e \<Rightarrow> Inl e
         | Inr indices_by_zone \<Rightarrow>
             Inr (pair_moves deficit_zones indices_by_zone curr_counts []))"

text \<open>Carrying a plan out: elevator \<open>idx\<close> is sent to \<open>target_zone\<close>, move by move.\<close>

definition apply_moves :: "string list \<Rightarrow> (nat \<times> string) list \<Rightarrow> string list" where
  "apply_moves cur moves = fold (\<lambda>(i, z) c. c[i := z]) moves cur"

definition zone_counts :: "string list \<Rightarrow> int list" where
  "zone_counts cur = map (\<lambda>z. int (count_list cur z)) ZONES"


section \<open>Task 3: epoch evaluator (project/situ\_model\_2026/scripts/task3\_evaluator\_parking.py)\<close>

text \<open>\<open>round(x)\<close> on a float: to the nearest integer, a half to the even neighbour.\<close>

definition py_round :: "rat \<Rightarrow> int" where
  "py_round x =
     (let f = \<lfloor>x\<rfloor>; d = x - of_int f in
      if d < 1 / 2 then f else if d > 1 / 2 then f + 1
      else if even f then f else f + 1)"

text \<open>\<open>np.median\<close> of a non-empty integer array.\<close>

definition np_median :: "int list \<Rightarrow> rat" where
  "np_median arr =
     (let a = sort arr; n = length a in
      if odd n then of_int (a ! (n div 2))
      else (of_int (a ! (n div 2 - 1)) + of_int (a ! (n div 2))) / 2)"

text \<open>\<open>np.argmax\<close>: the first position of the maximum.\<close>

fun argmax_from :: "rat list \<Rightarrow> nat \<Rightarrow> nat \<Rightarrow> rat \<Rightarrow> nat" where
  "argmax_from [] i b v = b"
| "argmax_from (x # xs) i b v =
     (if v < x then argmax_from xs (Suc i) i x else argmax_from xs (Suc i) b v)"

definition argmax :: "rat list \<Rightarrow> nat" where
  "argmax xs = (case xs of [] \<Rightarrow> 0 | x # rest \<Rightarrow> argmax_from rest 1 0 x)"

definition weighted_quantile_floors :: "int list \<Rightarrow> int \<Rightarrow> int list" where
  "weighted_quantile_floors floors k =
     (if floors = [] then []
      else
        (let floors_sorted = sort floors;
             n = length floors_sorted;
             qs = map (\<lambda>i. (of_nat i + 1 / 2) / of_int k) [0 ..< nat k];
             idxs = map (\<lambda>q. min (int n - 1) (max 0 (py_round (q * of_int (int n - 1))))) qs
         in map (\<lambda>i. floors_sorted ! nat i) idxs))"

definition match_sorted_distance :: "int list \<Rightarrow> int list \<Rightarrow> rat" where
  "match_sorted_distance prev cur =
     (if prev = [] \<or> cur = [] then 0
      else of_int (sum_list (map (\<lambda>(a, b). \<bar>a - b\<bar>) (zip (sort prev) (sort cur)))))"

definition zone_of_floor :: "int \<Rightarrow> int \<Rightarrow> int \<Rightarrow> string" where
  "zone_of_floor f lobby_max mid_max =
     (if f \<le> lobby_max then ''Lobby'' else if f \<le> mid_max then ''Mid'' else ''Upper'')"

definition parking_lobby :: "int \<Rightarrow> int list" where
  "parking_lobby k = replicate (nat k) 1"

definition parking_last_stop :: "int list \<Rightarrow> int \<Rightarrow> int list" where
  "parking_last_stop prev_parking k =
     (if prev_parking \<noteq> [] \<and> int (length prev_parking) = k then prev_parking
      else replicate (nat k) 1)"

text \<open>
  The \<open>while alloc.sum() < k\<close> loop of \<open>parking_zone\<close>: one more car for the zone whose
  share exceeds its allocation most. The arrays have three entries, so \<open>argmax\<close> is
  always a valid position; the guard on it only makes the recursion total on other lists.
\<close>

function distribute_remaining :: "rat list \<Rightarrow> int \<Rightarrow> int list \<Rightarrow> int list" where
  "distribute_remaining props k alloc =
     (if sum_list alloc < k then
        (let idx = argmax (map (\<lambda>(p, a). p - of_int a / of_int (max 1 k)) (zip props alloc)) in
         if idx < length alloc
         then distribute_remaining props k (alloc[idx := alloc ! idx + 1])
         else alloc)
      else alloc)"
  by pat_completeness auto
termination
proof (relation "measure (\<lambda>(props, k, alloc). nat (k - sum_list alloc))", goal_cases)
  case 1
  show ?case by simp
next
  case (2 props k alloc idx)
  have upd: "sum_list (xs[i := xs ! i + 1]) = sum_list xs + 1" if "i < length xs"
    for xs :: "int list" and i
    using that by (induction xs arbitrary: i) (auto split: nat.splits)
  from 2 show ?case by (simp add: upd)
qed

declare distribute_remaining.simps [simp del]

definition med_or_center :: "int list \<Rightarrow> int \<Rightarrow> int \<Rightarrow> int" where
  "med_or_center arr lo hi =
     (if arr \<noteq> [] then py_int (np_median arr) else py_int (of_int (lo + hi) / 2))"

text \<open>
  \<open>parking_zone\<close>. A Python list repeated a negative number of times is empty, which is
  what \<^term>\<open>replicate (nat n)\<close> gives.
\<close>

definition parking_zone :: "int list \<Rightarrow> int \<Rightarrow> int \<Rightarrow> int \<Rightarrow> int \<Rightarrow> int \<Rightarrow> int list" where
  "parking_zone history_floors k lobby_max mid_max F_min F_max =
     (if history_floors = [] then
        (let a0 = \<lceil>(1 / 2) * (of_int k :: rat)\<rceil>;
             a1 = \<lceil>(3 / 10) * (of_int k :: rat)\<rceil>;
             a2 = k - a0 - a1
         in replicate (nat a0) 1
            @ replicate (nat a1) (py_int (of_int (lobby_max + mid_max) / 2))
            @ replicate (nat a2) (py_int (of_int (mid_max + F_max) / 2)))
      else
        (let lob = filter (\<lambda>f. f \<le> lobby_max) history_floors;
             mid = filter (\<lambda>f. lobby_max < f \<and> f \<le> mid_max) history_floors;
             upp = filter (\<lambda>f. mid_max < f) history_floors;
             counts0 = [of_nat (length lob), of_nat (length mid), of_nat (length upp)];
             counts = (if sum_list counts0 = (0 :: rat) then [1, 1, 1] else counts0);
             props = map (\<lambda>c. c / sum_list counts) counts;
             alloc0 = map (\<lambda>p. \<lfloor>p * of_int k\<rfloor>) props;
             alloc1 = distribute_remaining props k alloc0;
             alloc = map (max 0) alloc1;
             p_lob = 1;
             p_mid = med_or_center mid (lobby_max + 1) mid_max;
             p_upp = med_or_center upp (mid_max + 1) F_max
         in replicate (nat (alloc ! 0)) p_lob
            @ replicate (nat (alloc ! 1)) p_mid
            @ replicate (nat (alloc ! 2)) p_upp))"

definition parking_dynamic :: "int list \<Rightarrow> int \<Rightarrow> int list \<Rightarrow> int list" where
  "parking_dynamic history_floors k fallback =
     (if history_floors = [] then fallback else weighted_quantile_floors history_floors k)"

text \<open>
  The strategy dispatch inside the loop of \<open>main\<close>: the \<open>if/elif\<close> chain on the
  strategy name, ending in \<open>raise ValueError(strat)\<close>.
\<close>

definition plan_strategy ::
  "string \<Rightarrow> int list \<Rightarrow> int list \<Rightarrow> int \<Rightarrow> int \<Rightarrow> int \<Rightarrow> int \<Rightarrow> int \<Rightarrow> py_error + int list" where
  "plan_strategy strat prev hist_floors k lobby_max mid_max F_min F_max =
     (if strat = ''last_stop'' then Inr (parking_last_stop prev k)
      else if strat = ''lobby'' then Inr (parking_lobby k)
      else if strat = ''zone'' then Inr (parking_zone hist_floors k lobby_max mid_max F_min F_max)
      else if strat = ''dynamic'' then
        Inr (parking_dynamic hist_floors k
               (parking_zone hist_floors k lobby_max mid_max F_min F_max))
      else Inl (ValueError strat))"


text \<open>
  \<open>main\<close>. A row of the cleaned CSV is a call (time in nanoseconds, floor); the
  \<open>Direction\<close> column only feeds the \<open>state\<close> tag of a log row, which no wait time
  depends on, and tag and column are left out of the model.
\<close>

record hall_call =
  call_time :: int
  call_floor :: int

record eval_args =
  arg_k :: int
  arg_v_floor :: rat
  arg_door :: rat
  arg_history_bins :: int
  arg_lobby_max :: int
  arg_mid_max :: int

record log_row =
  log_strategy :: string
  log_call_time :: int
  log_wait_time :: rat
  log_empty_travel :: rat

definition FIVE_MIN :: int where
  "FIVE_MIN = 300000000000"

definition floor_5min :: "int \<Rightarrow> int" where
  "floor_5min t = (t div FIVE_MIN) * FIVE_MIN"

text \<open>The log rows of one strategy in one bin; \<open>np.min\<close> of an empty array raises.\<close>

definition log_calls ::
  "eval_args \<Rightarrow> string \<Rightarrow> int list \<Rightarrow> rat \<Rightarrow> hall_call list \<Rightarrow> py_error + log_row list" where
  "log_calls args strat parks empty_travel calls =
     (if calls = [] then Inr []
      else if parks = [] then Inl (ValueError ''zero-size array'')
      else Inr (map (\<lambda>c.
              (let f = call_floor c;
                   dist = Min (set (map (\<lambda>p. \<bar>p - f\<bar>) parks));
                   wait = of_int dist * arg_v_floor args + arg_door args
               in \<lparr>log_strategy = strat, log_call_time = call_time c, log_wait_time = wait,
                   log_empty_travel = empty_travel / of_nat (length calls)\<rparr>)) calls))"

text \<open>The loop over the strategies for one bin, threading \<open>prev_parking\<close> and \<open>logs\<close>.\<close>

fun run_strategies ::
  "eval_args \<Rightarrow> int \<Rightarrow> int \<Rightarrow> int list \<Rightarrow> hall_call list \<Rightarrow> string list \<Rightarrow>
   (string \<rightharpoonup> int list) \<Rightarrow> log_row list \<Rightarrow> py_error + ((string \<rightharpoonup> int list) \<times> log_row list)" where
  "run_strategies args F_min F_max hist calls [] prev_parking logs = Inr (prev_parking, logs)"
| "run_strategies args F_min F_max hist calls (strat # rest) prev_parking logs =
     (case prev_parking strat of
        None \<Rightarrow> Inl (KeyError strat)
      | Some prev \<Rightarrow>
          (case plan_strategy strat prev hist (arg_k args) (arg_lobby_max args)
                  (arg_mid_max args) F_min F_max of
             Inl e \<Rightarrow> Inl e
           | Inr cur \<Rightarrow>
               (case log_calls args strat cur (match_sorted_distance prev cur) calls of
                  Inl e \<Rightarrow> Inl e
                | Inr rows \<Rightarrow>
                    run_strategies args F_min F_max hist calls rest
                      (prev_parking(strat \<mapsto> cur)) (logs @ rows))))"

text \<open>
  The loop over the bins: bin \<open>i\<close> sees the floors of the \<open>history_bins\<close> bins before it.
\<close>

fun run_bins ::
  "eval_args \<Rightarrow> int \<Rightarrow> int \<Rightarrow> string list \<Rightarrow> hall_call list \<Rightarrow> int list \<Rightarrow> nat list \<Rightarrow>
   (string \<rightharpoonup> int list) \<Rightarrow> log_row list \<Rightarrow> py_error + log_row list" where
  "run_bins args F_min F_max strategies df bins [] prev_parking logs = Inr logs"
| "run_bins args F_min F_max strategies df bins (i # is) prev_parking logs =
     (let floors_by_bin =
            map (\<lambda>b. map call_floor (filter (\<lambda>c. floor_5min (call_time c) = b) df)) bins;
          j0 = max 0 (int i - arg_history_bins args);
          hist_floors = (if int i > j0 then concat (take (i - nat j0) (drop (nat j0) floors_by_bin))
                         else []);
          calls = filter (\<lambda>c. floor_5min (call_time c) = bins ! i) df
      in case run_strategies args F_min F_max hist_floors calls strategies prev_parking logs of
           Inl e \<Rightarrow> Inl e
         | Inr (prev', logs') \<Rightarrow> run_bins args F_min F_max strategies df bins is prev' logs')"

definition STRATEGIES :: "string list" where
  "STRATEGIES = [''last_stop'', ''lobby'', ''zone'', ''dynamic'']"

text \<open>
  \<open>main\<close> with the list of strategies as a parameter; the script runs it on
  \<open>STRATEGIES\<close>. An empty table has no minimum floor (\<open>int(nan)\<close> raises).
\<close>

definition evaluator_run :: "string list \<Rightarrow> eval_args \<Rightarrow> hall_call list \<Rightarrow> py_error + log_row list" where
  "evaluator_run strategies args df =
     (if df = [] then Inl (ValueError ''cannot convert float NaN to integer'')
      else
        (let bins = sort (remdups (map (\<lambda>c. floor_5min (call_time c)) df));
             F_min = Min (set (map call_floor df));
             F_max = Max (set (map call_floor df));
             prev_parking = map_of (map (\<lambda>s. (s, replicate (nat (arg_k args)) (1 :: int))) strategies)
         in run_bins args F_min F_max strategies df bins [0 ..< length bins] prev_parking []))"

definition evaluator_main :: "eval_args \<Rightarrow> hall_call list \<Rightarrow> py_error + log_row list" where
  "evaluator_main args df = evaluator_run STRATEGIES args df"

text \<open>
  \<open>choose_parking_floor\<close> of project/beifen/common/task3\_evaluator\_simple.py; \<open>None\<close>
  is the value Python returns for "no repositioning".
\<close>

definition choose_parking_floor :: "string \<Rightarrow> int \<Rightarrow> py_error + int option" where
  "choose_parking_floor strategy cfloor =
     (if strategy = ''last_stop'' then Inr None
      else if strategy = ''lobby'' then Inr (Some 1)
      else if strategy = ''zone'' then
        (if cfloor \<le> 3 then Inr (Some 1) else if cfloor \<le> 8 then Inr (Some 6) else Inr (Some 12))
      else if strategy = ''dynamic'' then Inr (Some cfloor)
      else Inl (ValueError strategy))"


section \<open>Evaluation layer: percentiles (project/beifen/common/make\_report\_tables\_v2.py)\<close>

text \<open>
  \<open>np.percentile(x, q)\<close> is numpy's, not this repository's. It is modelled by its
  documented default (method "linear"): on the sorted sample of size \<open>n\<close> the virtual
  index is \<open>q / 100 * (n - 1)\<close>, and the result interpolates linearly between the two
  neighbouring order statistics.
\<close>

definition np_percentile :: "rat list \<Rightarrow> rat \<Rightarrow> rat" where
  "np_percentile x q =
     (let a = sort x;
          n = length a;
          vi = q / 100 * of_nat (n - 1);
          lo = nat \<lfloor>vi\<rfloor>;
          hi = min (lo + 1) (n - 1);
          g = vi - of_nat lo
      in a ! lo + g * (a ! hi - a ! lo))"

definition pctl :: "rat list \<Rightarrow> rat \<Rightarrow> metric" where
  "pctl x q = (if x = [] then NaN else Val (np_percentile x q))"

text \<open>\<open>np.mean\<close>; of an empty sample it is NaN.\<close>

definition np_mean :: "rat list \<Rightarrow> metric" where
  "np_mean x = (if x = [] then NaN else Val (sum_list x / of_nat (length x)))"

text \<open>Comparison of two reported figures; as for floats, nothing compares with NaN.\<close>

fun metric_le :: "metric \<Rightarrow> metric \<Rightarrow> bool" where
  "metric_le (Val a) (Val b) = (a \<le> b)"
| "metric_le _ _ = False"


text \<open>
  Linear interpolation in an array at a fractional position, the core of
  \<open>np_percentile\<close>, named for the proofs.
\<close>

definition lin_interp :: "rat list \<Rightarrow> rat \<Rightarrow> rat" where
  "lin_interp a v =
     (let lo = nat \<lfloor>v\<rfloor>; hi = min (lo + 1) (length a - 1)
      in a ! lo + (v - of_nat lo) * (a ! hi - a ! lo))"

section \<open>Dispatch simulator (project/scripts/run\_stress\_tests.py)\<close>

text \<open>
  Times are seconds since the epoch, as exact rationals. The table \<open>stop\<close> enters through
  \<open>infer_initial_positions\<close> only, and the fitted clustering pipeline through
  \<open>get_cluster_at\<close> only; the model takes the results of both as parameters
  (\<open>init_pos\<close>, \<open>cluster_at\<close>).
\<close>

definition N_ELEVATORS :: nat where
  "N_ELEVATORS = 8"

definition LOBBY_FLOOR :: int where
  "LOBBY_FLOOR = 1"

definition DECISION_FREQ :: rat where
  "DECISION_FREQ = 300"

record ElevatorState =
  es_floor :: int
  es_available_time :: rat

record sim_call =
  sc_time :: rat
  sc_floor :: int

record sim_metrics =
  m_AWT :: metric
  m_P95 :: metric
  m_LongWaitPct :: metric
  m_N :: nat

record demand_row =
  d_cluster :: int
  d_floor :: int
  d_cnt :: rat

definition travel_time_seconds :: "int \<Rightarrow> int \<Rightarrow> rat \<Rightarrow> rat" where
  "travel_time_seconds f1 f2 seconds_per_floor = of_int \<bar>f1 - f2\<bar> * seconds_per_floor"

text \<open>\<open>demand_lookup\<close>: floors and weights of each cluster, all-one weights if they sum to 0.\<close>

definition demand_lookup :: "demand_row list \<Rightarrow> (int \<rightharpoonup> (int list \<times> rat list))" where
  "demand_lookup demand =
     map_of (map (\<lambda>cl.
               (let dfc = filter (\<lambda>d. d_cluster d = cl) demand;
                    floors = map d_floor dfc;
                    w = map d_cnt dfc
                in (cl, (floors, if sum_list w \<le> 0 then map (\<lambda>_. 1) w else w))))
             (remdups (map d_cluster demand)))"

text \<open>\<open>np.searchsorted(cw, q)\<close> on an ascending array: the first position not below \<open>q\<close>.\<close>

definition searchsorted :: "rat list \<Rightarrow> rat \<Rightarrow> nat" where
  "searchsorted cw q = length (takeWhile (\<lambda>c. c < q) cw)"

fun cumsum_from :: "rat \<Rightarrow> rat list \<Rightarrow> rat list" where
  "cumsum_from acc [] = []"
| "cumsum_from acc (x # xs) = (acc + x) # cumsum_from (acc + x) xs"

text \<open>The quantile targets of the \<open>dynamic\<close> branch; an index past the array raises.\<close>

definition dynamic_targets :: "int list \<Rightarrow> rat list \<Rightarrow> nat \<Rightarrow> py_error + int list" where
  "dynamic_targets floors w k =
     (let pairs = sort_key fst (zip floors w);
          floors2 = map fst pairs;
          w2 = map snd pairs;
          cw = map (\<lambda>c. c / (sum_list w2 + 1 / 10 ^ 12)) (cumsum_from 0 w2);
          qs = map (\<lambda>i. (of_nat i + 1 / 2) / of_nat k) [0 ..< k];
          idxs = map (searchsorted cw) qs
      in if list_all (\<lambda>i. i < length floors2) idxs then Inr (map (\<lambda>i. floors2 ! i) idxs)
         else Inl IndexError)"

text \<open>Sending one car to a target floor at decision time \<open>t\<close>.\<close>

definition send_to :: "rat \<Rightarrow> rat \<Rightarrow> int \<Rightarrow> ElevatorState \<Rightarrow> ElevatorState" where
  "send_to t seconds_per_floor tgt st =
     (if es_floor st \<noteq> tgt
      then \<lparr>es_floor = tgt,
            es_available_time = t + travel_time_seconds (es_floor st) tgt seconds_per_floor\<rparr>
      else st)"

fun send_all :: "rat \<Rightarrow> rat \<Rightarrow> (nat \<times> int) list \<Rightarrow> ElevatorState list \<Rightarrow> ElevatorState list" where
  "send_all t spf [] elevators = elevators"
| "send_all t spf ((e, tgt) # rest) elevators =
     send_all t spf rest (elevators[e := send_to t spf tgt (elevators ! e)])"

text \<open>
  \<open>apply_parking_policy(t)\<close>. The dictionary \<open>elevators\<close> has the keys
  \<open>0 .. N_ELEVATORS - 1\<close> in this order and is held as a list. After the three
  \<open>if strategy == ...\<close> blocks the function ends: any other name changes nothing.
\<close>

definition apply_parking_policy ::
  "string \<Rightarrow> rat \<Rightarrow> (rat \<Rightarrow> int) \<Rightarrow> (int \<rightharpoonup> (int list \<times> rat list)) \<Rightarrow> int list \<Rightarrow>
   rat \<Rightarrow> ElevatorState list \<Rightarrow> py_error + ElevatorState list" where
  "apply_parking_policy strategy seconds_per_floor cluster_at lookup sim_floors t elevators =
     (let idle = filter (\<lambda>e. es_available_time (elevators ! e) \<le> t) [0 ..< length elevators] in
      if idle = [] then Inr elevators
      else if strategy = ''last_stop'' then Inr elevators
      else if strategy = ''lobby'' then
        Inr (send_all t seconds_per_floor (map (\<lambda>e. (e, LOBBY_FLOOR)) idle) elevators)
      else if strategy = ''dynamic'' then
        (let (floors, w) =
               (case lookup (cluster_at t) of
                  Some fw \<Rightarrow> fw
                | None \<Rightarrow>
                    (let fs = [Min (set sim_floors) .. Max (set sim_floors)]
                     in (fs, map (\<lambda>_. 1) fs)))
         in case dynamic_targets floors w (length idle) of
              Inl e \<Rightarrow> Inl e
            | Inr targets \<Rightarrow> Inr (send_all t seconds_per_floor (zip idle targets) elevators))
      else Inr elevators)"

text \<open>The \<open>while next_dec is not None and next_dec <= call_time\<close> loop.\<close>

fun apply_due ::
  "(rat \<Rightarrow> ElevatorState list \<Rightarrow> py_error + ElevatorState list) \<Rightarrow> rat list \<Rightarrow> rat \<Rightarrow>
   ElevatorState list \<Rightarrow> py_error + (rat list \<times> ElevatorState list)" where
  "apply_due policy [] ct elevators = Inr ([], elevators)"
| "apply_due policy (next_dec # later) ct elevators =
     (if next_dec \<le> ct then
        (case policy next_dec elevators of
           Inl e \<Rightarrow> Inl e
         | Inr elevators' \<Rightarrow> apply_due policy later ct elevators')
      else Inr (next_dec # later, elevators))"

text \<open>
  The dispatch loop over the cars, with its running \<open>(best_e, best_arrival)\<close>: a car
  replaces the best one only when it arrives strictly earlier.
\<close>

definition arrival :: "rat \<Rightarrow> int \<Rightarrow> rat \<Rightarrow> ElevatorState \<Rightarrow> rat" where
  "arrival ct origin_floor seconds_per_floor st =
     max (es_available_time st) ct
       + travel_time_seconds (es_floor st) origin_floor seconds_per_floor"

fun choose_car ::
  "rat \<Rightarrow> int \<Rightarrow> rat \<Rightarrow> (nat \<times> ElevatorState) list \<Rightarrow> (nat \<times> rat) option \<Rightarrow> (nat \<times> rat) option" where
  "choose_car ct fl spf [] best = best"
| "choose_car ct fl spf ((e, st) # rest) best =
     (let arr = arrival ct fl spf st in
      case best of
        None \<Rightarrow> choose_car ct fl spf rest (Some (e, arr))
      | Some (best_e, best_arrival) \<Rightarrow>
          if arr < best_arrival then choose_car ct fl spf rest (Some (e, arr))
          else choose_car ct fl spf rest best)"

definition dispatch ::
  "rat \<Rightarrow> int \<Rightarrow> rat \<Rightarrow> ElevatorState list \<Rightarrow> (nat \<times> rat) option" where
  "dispatch ct fl spf elevators =
     choose_car ct fl spf (zip [0 ..< length elevators] elevators) None"



text \<open>The loop over the calls of the window; it returns the list \<open>waits\<close>.\<close>

fun serve_calls ::
  "(rat \<Rightarrow> ElevatorState list \<Rightarrow> py_error + ElevatorState list) \<Rightarrow> rat \<Rightarrow> rat \<Rightarrow>
   sim_call list \<Rightarrow> rat list \<Rightarrow> ElevatorState list \<Rightarrow> rat list \<Rightarrow> py_error + rat list" where
  "serve_calls policy spf door_time [] decs elevators waits = Inr waits"
| "serve_calls policy spf door_time (r # rest) decs elevators waits =
     (case apply_due policy decs (sc_time r) elevators of
        Inl e \<Rightarrow> Inl e
      | Inr (decs', elevators') \<Rightarrow>
          (case dispatch (sc_time r) (sc_floor r) spf elevators' of
             None \<Rightarrow> Inl (KeyError ''None'')
           | Some (best_e, best_arrival) \<Rightarrow>
               serve_calls policy spf door_time rest decs'
                 (elevators'[best_e := \<lparr>es_floor = sc_floor r,
                                        es_available_time = best_arrival + door_time\<rparr>])
                 (waits @ [best_arrival - sc_time r])))"

text \<open>
  \<open>pd.date_range(start_time.floor(f), end_time.ceil(f), freq=f)\<close>: the decision epochs.
\<close>

definition decision_times :: "rat \<Rightarrow> rat \<Rightarrow> rat list" where
  "decision_times start_time end_time =
     (let lo = \<lfloor>start_time / DECISION_FREQ\<rfloor>; hi = \<lceil>end_time / DECISION_FREQ\<rceil> in
      map (\<lambda>i. of_int i * DECISION_FREQ) [lo .. hi])"

definition hall_window :: "sim_call list \<Rightarrow> rat \<Rightarrow> rat \<Rightarrow> sim_call list" where
  "hall_window hall start_time end_time =
     filter (\<lambda>r. start_time \<le> sc_time r \<and> sc_time r \<le> end_time) (sort_key sc_time hall)"

text \<open>The per-call waits of a run over a non-empty window.\<close>

definition simulate_waits ::
  "string \<Rightarrow> sim_call list \<Rightarrow> (nat \<rightharpoonup> int) \<Rightarrow> (rat \<Rightarrow> int) \<Rightarrow> demand_row list \<Rightarrow>
   rat \<Rightarrow> rat \<Rightarrow> rat \<Rightarrow> rat \<Rightarrow> py_error + rat list" where
  "simulate_waits strategy hall init_pos cluster_at demand start_time end_time
       seconds_per_floor door_time =
     (let hall_sim = hall_window hall start_time end_time;
          elevators = map (\<lambda>e. \<lparr>es_floor = (case init_pos e of None \<Rightarrow> LOBBY_FLOOR | Some f \<Rightarrow> f),
                                 es_available_time = start_time\<rparr>) [0 ..< N_ELEVATORS];
          policy = apply_parking_policy strategy seconds_per_floor cluster_at
                     (demand_lookup demand) (map sc_floor hall_sim)
      in serve_calls policy seconds_per_floor door_time hall_sim
           (decision_times start_time end_time) elevators [])"

definition simulate ::
  "string \<Rightarrow> sim_call list \<Rightarrow> (nat \<rightharpoonup> int) \<Rightarrow> (rat \<Rightarrow> int) \<Rightarrow> demand_row list \<Rightarrow>
   rat \<Rightarrow> rat \<Rightarrow> rat \<Rightarrow> rat \<Rightarrow> rat \<Rightarrow> py_error + sim_metrics" where
  "simulate strategy hall init_pos cluster_at demand start_time end_time
       seconds_per_floor door_time long_wait_threshold =
     (if hall_window hall start_time end_time = [] then
        Inr \<lparr>m_AWT = NaN, m_P95 = NaN, m_LongWaitPct = NaN, m_N = 0\<rparr>
      else
        (case simulate_waits strategy hall init_pos cluster_at demand start_time end_time
                seconds_per_floor door_time of
           Inl e \<Rightarrow> Inl e
         | Inr waits \<Rightarrow>
             Inr \<lparr>m_AWT = np_mean waits,
                  m_P95 = Val (np_percentile waits 95),
                  m_LongWaitPct =
                    Val (of_nat (length (filter (\<lambda>x. long_wait_threshold \<le> x) waits))
                           / of_nat (length waits) * 100),
                  m_N = length waits\<rparr>))"


text \<open>
  \<open>summarize_task3(df, long_wait_threshold)\<close> on a call log without an
  \<open>is_long_wait\<close> column (the CSV the evaluator writes has none): one row per strategy,
  groups in key order, the rows then sorted by AWT. \<open>has_empty_travel\<close> says whether the
  log has the column \<open>empty_travel\<close>.
\<close>

record call_metric =
  cm_strategy :: string
  cm_wait_time :: rat
  cm_empty_travel :: rat

record summary_row =
  s_strategy :: string
  s_N :: nat
  s_AWT :: rat
  s_P90 :: metric
  s_P95 :: metric
  s_P99 :: metric
  s_LongWait :: rat
  s_EmptyTravel_mean :: metric

definition summarize_group :: "bool \<Rightarrow> rat \<Rightarrow> string \<Rightarrow> call_metric list \<Rightarrow> summary_row" where
  "summarize_group has_empty_travel long_wait_threshold strat g =
     (let waits = map cm_wait_time g in
      \<lparr>s_strategy = strat,
       s_N = length g,
       s_AWT = sum_list waits / of_nat (length waits),
       s_P90 = pctl waits 90,
       s_P95 = pctl waits 95,
       s_P99 = pctl waits 99,
       s_LongWait = 100 * (of_nat (length (filter (\<lambda>x. long_wait_threshold \<le> x) waits))
                             / of_nat (length waits)),
       s_EmptyTravel_mean =
         (if has_empty_travel then np_mean (map cm_empty_travel g) else NaN)\<rparr>)"

definition summarize_task3 :: "bool \<Rightarrow> call_metric list \<Rightarrow> rat \<Rightarrow> summary_row list" where
  "summarize_task3 has_empty_travel df long_wait_threshold =
     sort_key s_AWT
       (map (\<lambda>strat. summarize_group has_empty_travel long_wait_threshold strat
                       (filter (\<lambda>x. cm_strategy x = strat) df))
            (sort (remdups (map cm_strategy df))))"

section \<open>Task 1: demand series and baseline + AR(1) fit (project/beifen/route\_b/task1\_model.py)\<close>

record series_row =
  sr_start :: int
  sr_count :: int
  sr_w :: int
  sr_tau :: int

definition DAY_NS :: int where
  "DAY_NS = 86400000000000"

definition N_INTERVALS_PER_DAY :: int where
  "N_INTERVALS_PER_DAY = 24 * 12"

text \<open>Monday is 0; the epoch (1970-01-01) was a Thursday.\<close>

definition weekday_of :: "int \<Rightarrow> int" where
  "weekday_of t = (t div DAY_NS + 3) mod 7"

definition minute_of_day :: "int \<Rightarrow> int" where
  "minute_of_day t = (t mod DAY_NS) div 60000000000"

text \<open>\<open>df.groupby('interval_start').size()\<close>: the slots that occur, with their sizes.\<close>

definition group_sizes :: "int list \<Rightarrow> (int \<rightharpoonup> int)" where
  "group_sizes starts = (\<lambda>s. if s \<in> set starts then Some (int (count_list starts s)) else None)"

text \<open>\<open>pd.date_range(start, end, freq='5T')\<close> for two slot starts.\<close>

definition date_range_5T :: "int \<Rightarrow> int \<Rightarrow> int list" where
  "date_range_5T first_slot last_slot =
     map (\<lambda>i. first_slot + i * FIVE_MIN) [0 .. (last_slot - first_slot) div FIVE_MIN]"

text \<open>
  \<open>build_5min_series\<close> from the timestamps of the calls (the CSV is read and its time
  column found by the caller's side of the function). With no call the index has no
  minimum (NaT) and \<open>date_range\<close> raises.
\<close>

definition build_5min_series :: "int list \<Rightarrow> py_error + series_row list" where
  "build_5min_series stamps =
     (if stamps = [] then Inl (ValueError ''Neither start nor end can be NaT'')
      else
        (let starts = map floor_5min stamps;
             counts = group_sizes starts;
             idx = date_range_5T (Min (set starts)) (Max (set starts))
         in Inr (map (\<lambda>s.
                   \<lparr>sr_start = s,
                    sr_count = (case counts s of None \<Rightarrow> 0 | Some c \<Rightarrow> c),
                    sr_w = (if weekday_of s < 5 then 1 else 0),
                    sr_tau = minute_of_day s div 5\<rparr>) idx)))"

text \<open>\<open>mu_w[w][tau]\<close> as fitted: the mean count of the rows with that regime and slot.\<close>

definition baseline_mu :: "series_row list \<Rightarrow> int \<Rightarrow> int \<Rightarrow> rat" where
  "baseline_mu df w tau =
     (let vals = map sr_count (filter (\<lambda>x. sr_w x = w \<and> sr_tau x = tau) df) in
      if vals \<noteq> [] then of_int (sum_list vals) / of_nat (length vals) else 0)"

text \<open>
  The lookup \<open>mu_w[int(w)][int(tau)]\<close>: the dictionary has the keys 0 and 1, the arrays
  288 entries, and a negative index counts from the end.
\<close>

definition mu_lookup :: "series_row list \<Rightarrow> int \<Rightarrow> int \<Rightarrow> py_error + rat" where
  "mu_lookup df w tau =
     (if w \<noteq> 0 \<and> w \<noteq> 1 then Inl (KeyError ''w'')
      else if tau < - N_INTERVALS_PER_DAY \<or> N_INTERVALS_PER_DAY \<le> tau then Inl IndexError
      else Inr (baseline_mu df w (if tau < 0 then tau + N_INTERVALS_PER_DAY else tau)))"

text \<open>The deviations \<open>e = y - mu_vals\<close>, row by row.\<close>

fun deviations :: "series_row list \<Rightarrow> series_row list \<Rightarrow> py_error + rat list" where
  "deviations df [] = Inr []"
| "deviations df (x # xs) =
     (case mu_lookup df (sr_w x) (sr_tau x) of
        Inl err \<Rightarrow> Inl err
      | Inr m \<Rightarrow>
          (case deviations df xs of
             Inl err \<Rightarrow> Inl err
           | Inr es \<Rightarrow> Inr ((of_int (sr_count x) - m) # es)))"

text \<open>
  The pairs \<open>(e_prev[t], e[t])\<close> kept by \<open>mask\<close> for regime \<open>w\<close>: \<open>t \<ge> 1\<close> and both
  \<open>t\<close> and \<open>t - 1\<close> in the regime.
\<close>

fun lag_pairs :: "int \<Rightarrow> int list \<Rightarrow> rat list \<Rightarrow> (rat \<times> rat) list" where
  "lag_pairs w (w0 # w1 # ws) (e0 # e1 # es) =
     (if w1 = w \<and> w0 = w then [(e0, e1)] else []) @ lag_pairs w (w1 # ws) (e1 # es)"
| "lag_pairs w _ _ = []"

text \<open>
  Float division as numpy does it: a zero denominator gives no number (nan or inf, both
  written \<open>NaN\<close> here) instead of raising.
\<close>

definition np_divide :: "rat \<Rightarrow> rat \<Rightarrow> metric" where
  "np_divide a b = (if b = 0 then NaN else Val (a / b))"

definition fit_phi :: "(rat \<times> rat) list \<Rightarrow> metric" where
  "fit_phi pairs =
     (if pairs = [] then Val 0
      else
        (let denom = sum_list (map (\<lambda>(x, yv). x * x) pairs) in
         if denom = 0 then Val 0
         else np_divide (sum_list (map (\<lambda>(x, yv). x * yv) pairs)) denom))"

text \<open>
  \<open>estimate_baseline_and_phi\<close>: the baseline as a function of regime and slot, and the
  dictionary \<open>phi_w\<close>. \<open>valid[0] = False\<close> raises on an empty series.
\<close>

definition estimate_baseline_and_phi ::
  "series_row list \<Rightarrow> py_error + ((int \<Rightarrow> int \<Rightarrow> rat) \<times> (int \<rightharpoonup> metric))" where
  "estimate_baseline_and_phi series_df =
     (case deviations series_df series_df of
        Inl err \<Rightarrow> Inl err
      | Inr e \<Rightarrow>
          if e = [] then Inl IndexError
          else
            (let w_arr = map sr_w series_df in
             Inr (baseline_mu series_df,
                  [0 \<mapsto> fit_phi (lag_pairs 0 w_arr e), 1 \<mapsto> fit_phi (lag_pairs 1 w_arr e)])))"

text \<open>The residual of a row against the fitted baseline.\<close>

definition residual :: "series_row list \<Rightarrow> series_row \<Rightarrow> rat" where
  "residual df x = of_int (sr_count x) - baseline_mu df (sr_w x) (sr_tau x)"



text \<open>
  A training series as the data model types it: at least one slot, regime 0 or 1, slot
  index within the day (what \<open>build_5min_series\<close> produces).
\<close>

definition well_typed_series :: "series_row list \<Rightarrow> bool" where
  "well_typed_series df =
     (df \<noteq> [] \<and> list_all (\<lambda>x. (sr_w x = 0 \<or> sr_w x = 1)
                              \<and> 0 \<le> sr_tau x \<and> sr_tau x < N_INTERVALS_PER_DAY) df)"

section \<open>Scenario of the end-to-end example\<close>

text \<open>One car, 1.5 seconds per floor, 8 seconds of door time; the other arguments at their defaults.\<close>

definition scenario_args :: eval_args where
  "scenario_args = \<lparr>arg_k = 1, arg_v_floor = 3 / 2, arg_door = 8, arg_history_bins = 12,
                     arg_lobby_max = 3, arg_mid_max = 8\<rparr>"

section \<open>Theorems\<close>

subsection \<open>C4: decision order of the rule classifier\<close>

text \<open>
  C4 (as amended). \<open>classify_interval\<close> is exactly the first-match-wins reading of the
  prioritised list: count below \<open>theta1\<close> gives Night Idle; otherwise any weekend slot
  (\<open>w = 0\<close>), whatever its volume, gives Weekend Low-Demand; otherwise high volume with
  strong up-ratio and lobby concentration gives Morning Up-Peak; otherwise high volume
  with strong down dominance gives Evening Down-Peak; otherwise high volume with moderate
  down dominance gives Lunch Down-Peak; otherwise Afternoon Mixed.
\<close>

theorem classify_interval_first_match:
  "classify_interval row thr = first_match (code_rules thr) ''Afternoon Mixed'' row"
  by (simp add: classify_interval_def code_rules_def Let_def)

text \<open>
  C4 as stated fails: a weekend slot with high volume, strong up-ratio and lobby
  concentration is not "weekend and low", so the stated order sends it on to
  Morning Up-Peak, while the code labels every weekend slot Weekend Low-Demand.
\<close>

theorem classify_interval_weekend_counterexample:
  "classify_interval \<lparr>row_count = 100, row_r = 9 / 10, row_p1 = 1 / 2, row_w = 0\<rparr>
       (default_thresholds 1 10 10) = ''Weekend Low-Demand''
   \<and> first_match (spec_rules (default_thresholds 1 10 10)) ''Afternoon Mixed''
       \<lparr>row_count = 100, row_r = 9 / 10, row_p1 = 1 / 2, row_w = 0\<rparr> = ''Morning Up-Peak''"
  by (simp add: classify_interval_def spec_rules_def default_thresholds_def Let_def)

subsection \<open>C10: repositioning moves against the desired allocation\<close>

text \<open>
  C10 fails on the code. Four elevators stand in Lobby, Lobby, Upper, Upper and the desired
  allocation is Lobby 1, Mid 2, Upper 1 (what \<open>compute_desired_allocation\<close> gives for
  Lunch Down-Peak, \<open>y_hat = 5\<close>, four elevators). Lobby and Upper each have one car too
  many, but every index of a surplus zone is a candidate, so both moves take a Lobby car:
  after the moves the zones hold 0, 2, 2 cars, not 1, 2, 1.
\<close>

theorem reposition_moves_miss_desired:
  "compute_reposition_moves [''Lobby'', ''Lobby'', ''Upper'', ''Upper'']
       [''Lobby'' \<mapsto> 1, ''Mid'' \<mapsto> 2, ''Upper'' \<mapsto> 1] = Inr [(1, ''Mid''), (0, ''Mid'')]
   \<and> zone_counts (apply_moves [''Lobby'', ''Lobby'', ''Upper'', ''Upper'']
                     [(1, ''Mid''), (0, ''Mid'')]) = [0, 2, 2]
   \<and> (case compute_desired_allocation ''Lunch Down-Peak'' 5 4 of
         Inl e \<Rightarrow> [] | Inr d \<Rightarrow> map (\<lambda>z. dget d z 0) ZONES) = [1, 2, 1]"
  by code_simp

subsection \<open>C1: number of targets of the zone strategy\<close>

text \<open>
  C1 fails on the code for a fleet of one car and an empty history: the fallback split
  is \<open>ceil(0.5 k), ceil(0.3 k), k - ceil(0.5 k) - ceil(0.3 k)\<close>, that is 1, 1, -1, and
  a list repeated -1 times is empty, so \<open>parking_zone\<close> returns two targets for one car.
\<close>

theorem parking_zone_one_car_no_history:
  "parking_zone [] 1 3 8 1 12 = [1, 5] \<and> length (parking_zone [] 1 3 8 1 12) = 2"
  by code_simp

text \<open>
  Everywhere else the zone strategy does return one target per car: with an empty history
  for every fleet of two or more cars, and with a non-empty history for every fleet size,
  where the floors of the proportional shares are topped up one car at a time for the
  zone of largest remaining share (first zone on ties) until the allocation sums to \<open>k\<close>.
\<close>

lemma ceiling_int_bounds:
  fixes x :: rat
  shows "of_int \<lceil>x\<rceil> - 1 < x" "x \<le> of_int \<lceil>x\<rceil>"
  by linarith+

lemma fallback_split_fits:
  assumes "2 \<le> k"
  shows "0 \<le> \<lceil>(1 / 2) * (of_int k :: rat)\<rceil>"
    and "0 \<le> \<lceil>(3 / 10) * (of_int k :: rat)\<rceil>"
    and "\<lceil>(1 / 2) * (of_int k :: rat)\<rceil> + \<lceil>(3 / 10) * (of_int k :: rat)\<rceil> \<le> k"
proof -
  let ?a0 = "\<lceil>(1 / 2) * (of_int k :: rat)\<rceil>" and ?a1 = "\<lceil>(3 / 10) * (of_int k :: rat)\<rceil>"
  have lo0: "(of_int ?a0 :: rat) - 1 < (1 / 2) * of_int k"
    and hi0: "(1 / 2) * of_int k \<le> (of_int ?a0 :: rat)"
    by (rule ceiling_int_bounds)+
  have "(of_int (2 * ?a0 - 2) :: rat) < of_int k"
    using lo0 unfolding of_int_diff of_int_mult by linarith
  then have a0l: "2 * ?a0 - 2 < k" by (simp only: of_int_less_iff)
  have "(of_int k :: rat) \<le> of_int (2 * ?a0)"
    using hi0 unfolding of_int_mult by linarith
  then have a0h: "k \<le> 2 * ?a0" by (simp only: of_int_le_iff)
  have lo1: "(of_int ?a1 :: rat) - 1 < (3 / 10) * of_int k"
    and hi1: "(3 / 10) * of_int k \<le> (of_int ?a1 :: rat)"
    by (rule ceiling_int_bounds)+
  have "(of_int (10 * ?a1 - 10) :: rat) < of_int (3 * k)"
    using lo1 unfolding of_int_diff of_int_mult by linarith
  then have a1l: "10 * ?a1 - 10 < 3 * k" by (simp only: of_int_less_iff)
  have "(of_int (3 * k) :: rat) \<le> of_int (10 * ?a1)"
    using hi1 unfolding of_int_mult by linarith
  then have a1h: "3 * k \<le> 10 * ?a1" by (simp only: of_int_le_iff)
  show "0 \<le> ?a0" using a0h assms by linarith
  show "0 \<le> ?a1" using a1h assms by linarith
  show "?a0 + ?a1 \<le> k"
  proof (cases "k = 2")
    case True
    have "?a0 \<le> 1" using a0l True by linarith
    moreover have "?a1 \<le> 1" using a1l True by linarith
    ultimately show ?thesis using True by linarith
  next
    case False
    with assms have "3 \<le> k" by simp
    then show ?thesis using a0l a1l by linarith
  qed
qed

lemma parking_zone_no_history_length:
  assumes "2 \<le> k"
  shows "int (length (parking_zone [] k lobby_max mid_max F_min F_max)) = k"
  using fallback_split_fits [OF assms]
  by (simp add: parking_zone_def Let_def)

lemma argmax_from_bound:
  "b < i \<Longrightarrow> argmax_from xs i b v < i + length xs"
proof (induction xs arbitrary: i b v)
  case Nil
  then show ?case by simp
next
  case (Cons x xs)
  have "argmax_from xs (Suc i) i x < Suc i + length xs"
    by (rule Cons.IH) simp
  moreover have "argmax_from xs (Suc i) b v < Suc i + length xs"
    by (rule Cons.IH) (use Cons.prems in simp)
  ultimately show ?case by simp
qed

lemma argmax_bound: "xs \<noteq> [] \<Longrightarrow> argmax xs < length xs"
  using argmax_from_bound [of 0 1]
  by (cases xs) (auto simp: argmax_def)

lemma sum_list_bump:
  fixes xs :: "int list"
  shows "i < length xs \<Longrightarrow> sum_list (xs[i := xs ! i + 1]) = sum_list xs + 1"
  by (induction xs arbitrary: i) (auto split: nat.splits)

lemma nth_bump_le:
  fixes xs :: "int list"
  shows "i < length xs \<Longrightarrow> xs ! i \<le> (xs[j := xs ! j + 1]) ! i"
  by (cases "i = j") simp_all

lemma distribute_remaining_sum:
  assumes "length props = length alloc" "alloc \<noteq> []" "sum_list alloc \<le> k"
  shows "sum_list (distribute_remaining props k alloc) = k
         \<and> length (distribute_remaining props k alloc) = length alloc
         \<and> (\<forall>i < length alloc. alloc ! i \<le> distribute_remaining props k alloc ! i)"
  using assms
proof (induction props k alloc rule: distribute_remaining.induct)
  case (1 props k alloc)
  show ?case
  proof (cases "sum_list alloc < k")
    case False
    then have "distribute_remaining props k alloc = alloc"
      by (simp add: distribute_remaining.simps [of props k alloc])
    with False "1.prems" show ?thesis by simp
  next
    case True
    let ?idx = "argmax (map (\<lambda>(p, a). p - of_int a / of_int (max 1 k)) (zip props alloc))"
    have "map (\<lambda>(p, a). p - of_int a / of_int (max 1 k)) (zip props alloc) \<noteq> []"
      using "1.prems"(1,2) by (cases props; cases alloc) auto
    from argmax_bound [OF this] have idx: "?idx < length alloc"
      using "1.prems"(1) by simp
    let ?alloc' = "alloc[?idx := alloc ! ?idx + 1]"
    have s': "sum_list ?alloc' \<le> k" using True idx by (simp add: sum_list_bump)
    have l': "length props = length ?alloc'" "?alloc' \<noteq> []"
      using "1.prems" by auto
    from "1.IH" [OF True refl idx l' s']
    have ih: "sum_list (distribute_remaining props k ?alloc') = k"
      "length (distribute_remaining props k ?alloc') = length alloc"
      "\<forall>i < length alloc. ?alloc' ! i \<le> distribute_remaining props k ?alloc' ! i"
      by simp_all
    have step: "distribute_remaining props k alloc = distribute_remaining props k ?alloc'"
      using True idx by (simp add: distribute_remaining.simps [of props k alloc] Let_def)
    have mono: "alloc ! i \<le> distribute_remaining props k ?alloc' ! i" if "i < length alloc" for i
    proof -
      have "alloc ! i \<le> ?alloc' ! i" using that by (rule nth_bump_le)
      also have "\<dots> \<le> distribute_remaining props k ?alloc' ! i" using ih(3) that by blast
      finally show ?thesis .
    qed
    from ih(1,2) mono show ?thesis unfolding step by blast
  qed
qed


lemma sum_list_three:
  fixes r :: "int list"
  assumes "length r = 3"
  shows "sum_list r = r ! 0 + r ! 1 + r ! 2"
proof -
  from assms obtain a b c where "r = [a, b, c]"
    by (auto simp: numeral_3_eq_3 length_Suc_conv)
  then show ?thesis by simp
qed

lemma zone_alloc_total:
  fixes x y z :: rat
  assumes nn: "0 \<le> x" "0 \<le> y" "0 \<le> z" and pos: "0 < x + y + z" and k: "0 \<le> k"
  shows "int (nat (map (max 0) (distribute_remaining
                (map (\<lambda>c. c / sum_list [x, y, z]) [x, y, z]) k
                (map (\<lambda>p. \<lfloor>p * of_int k\<rfloor>) (map (\<lambda>c. c / sum_list [x, y, z]) [x, y, z]))) ! 0)
            + nat (map (max 0) (distribute_remaining
                (map (\<lambda>c. c / sum_list [x, y, z]) [x, y, z]) k
                (map (\<lambda>p. \<lfloor>p * of_int k\<rfloor>) (map (\<lambda>c. c / sum_list [x, y, z]) [x, y, z]))) ! 1)
            + nat (map (max 0) (distribute_remaining
                (map (\<lambda>c. c / sum_list [x, y, z]) [x, y, z]) k
                (map (\<lambda>p. \<lfloor>p * of_int k\<rfloor>) (map (\<lambda>c. c / sum_list [x, y, z]) [x, y, z]))) ! 2))
         = k"
proof -
  let ?S = "x + y + z"
  let ?props = "map (\<lambda>c. c / sum_list [x, y, z]) [x, y, z]"
  let ?alloc0 = "map (\<lambda>p. \<lfloor>p * of_int k\<rfloor>) ?props"
  let ?r = "distribute_remaining ?props k ?alloc0"
  have S: "sum_list [x, y, z] = ?S" by simp
  have a0: "?alloc0 = [\<lfloor>x / ?S * of_int k\<rfloor>, \<lfloor>y / ?S * of_int k\<rfloor>, \<lfloor>z / ?S * of_int k\<rfloor>]"
    by (simp add: add.assoc)
  have kr: "(0 :: rat) \<le> of_int k" using k by simp
  have px: "0 \<le> x / ?S * of_int k" "0 \<le> y / ?S * of_int k" "0 \<le> z / ?S * of_int k"
    using nn pos kr by simp_all
  then have fl0: "0 \<le> \<lfloor>x / ?S * of_int k\<rfloor>" "0 \<le> \<lfloor>y / ?S * of_int k\<rfloor>"
    "0 \<le> \<lfloor>z / ?S * of_int k\<rfloor>"
    by simp_all
  have "x / ?S * of_int k + y / ?S * of_int k + z / ?S * of_int k = (x + y + z) / ?S * of_int k"
    by (simp only: add_divide_distrib distrib_right)
  also have "\<dots> = of_int k" using pos by simp
  finally have tot: "x / ?S * of_int k + y / ?S * of_int k + z / ?S * of_int k = of_int k" .
  have "(of_int (\<lfloor>x / ?S * of_int k\<rfloor> + \<lfloor>y / ?S * of_int k\<rfloor> + \<lfloor>z / ?S * of_int k\<rfloor>) :: rat)
          \<le> x / ?S * of_int k + y / ?S * of_int k + z / ?S * of_int k"
    unfolding of_int_add by (intro add_mono of_int_floor_le)
  then have "(of_int (\<lfloor>x / ?S * of_int k\<rfloor> + \<lfloor>y / ?S * of_int k\<rfloor> + \<lfloor>z / ?S * of_int k\<rfloor>) :: rat)
          \<le> of_int k"
    unfolding tot .
  then have le: "\<lfloor>x / ?S * of_int k\<rfloor> + \<lfloor>y / ?S * of_int k\<rfloor> + \<lfloor>z / ?S * of_int k\<rfloor> \<le> k"
    by (simp only: of_int_le_iff)
  have sum0: "sum_list ?alloc0 \<le> k" unfolding a0 using le by simp
  have len: "length ?props = length ?alloc0" "?alloc0 \<noteq> []" by simp_all
  from distribute_remaining_sum [OF len sum0]
  have r: "sum_list ?r = k" "length ?r = 3" "\<forall>i < 3. ?alloc0 ! i \<le> ?r ! i"
    by simp_all
  have nn0: "0 \<le> ?alloc0 ! 0" "0 \<le> ?alloc0 ! 1" "0 \<le> ?alloc0 ! 2"
    unfolding a0 using fl0 by simp_all
  have "?alloc0 ! 0 \<le> ?r ! 0" "?alloc0 ! 1 \<le> ?r ! 1" "?alloc0 ! 2 \<le> ?r ! 2"
    by (rule r(3) [rule_format], simp)+
  with nn0 have rn: "0 \<le> ?r ! 0" "0 \<le> ?r ! 1" "0 \<le> ?r ! 2"
    by linarith+
  have m: "map (max 0) ?r ! 0 = ?r ! 0" "map (max 0) ?r ! 1 = ?r ! 1" "map (max 0) ?r ! 2 = ?r ! 2"
    using rn r(2) by simp_all
  have "?r ! 0 + ?r ! 1 + ?r ! 2 = k" using sum_list_three [OF r(2)] r(1) by simp
  then show ?thesis unfolding m using rn by simp
qed


lemma zone_alloc_total_list:
  fixes counts :: "rat list"
  assumes "length counts = 3" "\<forall>c \<in> set counts. 0 \<le> c" "0 < sum_list counts" "0 \<le> k"
  shows "int (nat (map (max 0) (distribute_remaining
                (map (\<lambda>c. c / sum_list counts) counts) k
                (map (\<lambda>p. \<lfloor>p * of_int k\<rfloor>) (map (\<lambda>c. c / sum_list counts) counts))) ! 0)
            + nat (map (max 0) (distribute_remaining
                (map (\<lambda>c. c / sum_list counts) counts) k
                (map (\<lambda>p. \<lfloor>p * of_int k\<rfloor>) (map (\<lambda>c. c / sum_list counts) counts))) ! 1)
            + nat (map (max 0) (distribute_remaining
                (map (\<lambda>c. c / sum_list counts) counts) k
                (map (\<lambda>p. \<lfloor>p * of_int k\<rfloor>) (map (\<lambda>c. c / sum_list counts) counts))) ! 2))
         = k"
proof -
  from assms(1) obtain x y z where c: "counts = [x, y, z]"
    by (auto simp: numeral_3_eq_3 length_Suc_conv)
  have nn: "0 \<le> x" "0 \<le> y" "0 \<le> z" using assms(2) c by simp_all
  have pos: "0 < x + y + z" using assms(3) c by simp
  show ?thesis unfolding c by (rule zone_alloc_total [OF nn pos assms(4)])
qed

lemma parking_zone_history_length:
  assumes "history_floors \<noteq> []" "0 \<le> k"
  shows "int (length (parking_zone history_floors k lobby_max mid_max F_min F_max)) = k"
proof -
  let ?raw = "[of_nat (length (filter (\<lambda>f. f \<le> lobby_max) history_floors)),
                   of_nat (length (filter (\<lambda>f. lobby_max < f \<and> f \<le> mid_max) history_floors)),
                   of_nat (length (filter (\<lambda>f. mid_max < f) history_floors))] :: rat list"
  let ?counts = "if sum_list ?raw = 0 then [1, 1, 1] else ?raw"
  let ?props = "map (\<lambda>c. c / sum_list ?counts) ?counts"
  let ?alloc = "map (max 0) (distribute_remaining ?props k (map (\<lambda>p. \<lfloor>p * of_int k\<rfloor>) ?props))"
  have c3: "length ?counts = 3" by simp
  have cn: "\<forall>c \<in> set ?counts. 0 \<le> c" by simp
  have nn0: "0 \<le> sum_list ?raw" by simp
  have cp: "0 < sum_list ?counts"
  proof (cases "sum_list ?raw = 0")
    case True
    then have "?counts = [1, 1, 1]" by simp
    then show ?thesis by simp
  next
    case False
    then have eq: "?counts = ?raw" by simp
    from False nn0 have "0 < sum_list ?raw" by linarith
    then show ?thesis unfolding eq .
  qed
  have len: "length (parking_zone history_floors k lobby_max mid_max F_min F_max)
               = nat (?alloc ! 0) + nat (?alloc ! 1) + nat (?alloc ! 2)"
    using assms(1) by (simp add: parking_zone_def Let_def)
  show ?thesis unfolding len by (rule zone_alloc_total_list [OF c3 cn cp assms(2)])
qed

subsection \<open>C2: the single-call scenario\<close>

text \<open>
  C2 (as amended). One car at floor 1, strategy lobby, 1.5 seconds per floor, 8 seconds of
  door time, one call at floor 5 at time 0. The epoch evaluator
  (task3\_evaluator\_parking.py) logs the wait \<open>|1 - 5| * 1.5 + 8 = 14\<close> in its
  \<open>lobby\<close> row (the script logs one row per strategy for the call). The event
  simulator \<open>simulate\<close> (run\_stress\_tests.py, its eight cars at the lobby) records the
  travel time alone, \<open>|1 - 5| * 1.5 = 6\<close>: the door time delays the car's next
  availability and is no part of the wait.
\<close>

theorem single_call_wait_times:
  "evaluator_main scenario_args [\<lparr>call_time = 0, call_floor = 5\<rparr>]
     = Inr [\<lparr>log_strategy = ''last_stop'', log_call_time = 0,
              log_wait_time = 14, log_empty_travel = 0\<rparr>,
            \<lparr>log_strategy = ''lobby'', log_call_time = 0,
              log_wait_time = of_int \<bar>1 - 5\<bar> * (3 / 2) + 8, log_empty_travel = 0\<rparr>,
            \<lparr>log_strategy = ''zone'', log_call_time = 0,
              log_wait_time = 8, log_empty_travel = 0\<rparr>,
            \<lparr>log_strategy = ''dynamic'', log_call_time = 0,
              log_wait_time = 8, log_empty_travel = 0\<rparr>]
   \<and> of_int \<bar>1 - 5\<bar> * (3 / 2) + 8 = (14 :: rat)
   \<and> simulate_waits ''lobby'' [\<lparr>sc_time = 0, sc_floor = 5\<rparr>] Map.empty (\<lambda>t. 0) []
        0 0 (3 / 2) 8 = Inr [of_int \<bar>1 - 5\<bar> * (3 / 2)]"
  unfolding scenario_args_def by code_simp

text \<open>
  C2 as stated fails for \<open>simulate\<close>: the recorded wait of the call is 6, not 14.
\<close>

theorem simulate_wait_excludes_door_time:
  "simulate_waits ''lobby'' [\<lparr>sc_time = 0, sc_floor = 5\<rparr>] Map.empty (\<lambda>t. 0) []
        0 0 (3 / 2) 8 = Inr [6]
   \<and> simulate_waits ''lobby'' [\<lparr>sc_time = 0, sc_floor = 5\<rparr>] Map.empty (\<lambda>t. 0) []
        0 0 (3 / 2) 8 \<noteq> Inr [of_int \<bar>1 - 5\<bar> * (3 / 2) + 8]"
  by code_simp

subsection \<open>C3: strategy names the engine does not implement\<close>

text \<open>
  C3 fails on the code for \<open>simulate\<close>. The name \<open>dynamic_rule\<close> (one of the names the
  script's own \<open>main\<close> passes) matches none of the three branches of
  \<open>apply_parking_policy\<close>; the run completes and its waits are those of \<open>last_stop\<close>.
  The two sibling dispatches, \<open>plan_strategy\<close> and \<open>choose_parking_floor\<close>, raise
  \<open>ValueError\<close> on the same name.
\<close>

theorem unknown_strategy_is_silent:
  "simulate_waits ''dynamic_rule'' [\<lparr>sc_time = 0, sc_floor = 5\<rparr>, \<lparr>sc_time = 400, sc_floor = 7\<rparr>]
       Map.empty (\<lambda>t. 0) [] 0 600 (3 / 2) 8 = Inr [6, 3]
   \<and> simulate_waits ''last_stop'' [\<lparr>sc_time = 0, sc_floor = 5\<rparr>, \<lparr>sc_time = 400, sc_floor = 7\<rparr>]
       Map.empty (\<lambda>t. 0) [] 0 600 (3 / 2) 8 = Inr [6, 3]
   \<and> plan_strategy ''dynamic_rule'' [1] [] 1 3 8 1 12 = Inl (ValueError ''dynamic_rule'')
   \<and> choose_parking_floor ''dynamic_rule'' 5 = Inl (ValueError ''dynamic_rule'')"
  by code_simp

text \<open>The same for every name outside the three branches: the policy leaves the cars alone.\<close>

lemma unknown_strategy_noop:
  "strategy \<notin> {''last_stop'', ''lobby'', ''dynamic''} \<Longrightarrow>
   apply_parking_policy strategy spf cluster_at lookup sim_floors t elevators = Inr elevators"
  by (simp add: apply_parking_policy_def Let_def)

subsection \<open>C5: an empty window\<close>

text \<open>
  C5. If no call of the stream lies in the simulated window, \<open>simulate\<close> returns, without
  an error, the metrics AWT = NaN, P95 = NaN, LongWaitPct = NaN and N = 0; likewise
  \<open>pctl\<close> of an empty sample is NaN.
\<close>

theorem simulate_empty_window:
  "hall_window hall start_time end_time = [] \<Longrightarrow>
   simulate strategy hall init_pos cluster_at demand start_time end_time spf door_time thr
     = Inr \<lparr>m_AWT = NaN, m_P95 = NaN, m_LongWaitPct = NaN, m_N = 0\<rparr>
   \<and> pctl [] q = NaN"
  by (simp add: simulate_def pctl_def)

theorem simulate_empty_window_witness:
  "hall_window [\<lparr>sc_time = 5, sc_floor = 3\<rparr>] 10 20 = []
   \<and> simulate ''lobby'' [\<lparr>sc_time = 5, sc_floor = 3\<rparr>] Map.empty (\<lambda>t. 0) [] 10 20 (3 / 2) 8 60
     = Inr \<lparr>m_AWT = NaN, m_P95 = NaN, m_LongWaitPct = NaN, m_N = 0\<rparr>
   \<and> pctl [] 95 = NaN"
proof -
  have h: "hall_window [\<lparr>sc_time = 5, sc_floor = 3\<rparr>] 10 20 = []"
    by (simp add: hall_window_def)
  show ?thesis
    using h simulate_empty_window [OF h, of "''lobby''" Map.empty "\<lambda>t. 0" "[]" "3 / 2" 8 60 95]
    by simp
qed

subsection \<open>C8: determinism and the dispatch rule\<close>













subsection \<open>C7: the gap-filled slot series\<close>

lemma FIVE_MIN_pos: "0 < FIVE_MIN"
  by (simp add: FIVE_MIN_def)

lemma floor_5min_mono: "mono floor_5min"
  unfolding mono_def floor_5min_def
  using FIVE_MIN_pos by (simp add: zdiv_mono1 mult_right_mono)

lemma floor_5min_dvd: "FIVE_MIN dvd floor_5min t"
  by (simp add: floor_5min_def)

lemma count_list_map_filter:
  "count_list (map f xs) s = length (filter (\<lambda>t. f t = s) xs)"
  by (induction xs) auto

lemma date_range_5T_props:
  assumes "lo \<le> hi" "FIVE_MIN dvd lo" "FIVE_MIN dvd hi"
  shows "date_range_5T lo hi \<noteq> []"
    and "hd (date_range_5T lo hi) = lo"
    and "last (date_range_5T lo hi) = hi"
    and "\<And>i. Suc i < length (date_range_5T lo hi) \<Longrightarrow>
           date_range_5T lo hi ! Suc i = date_range_5T lo hi ! i + FIVE_MIN"
proof -
  let ?n = "(hi - lo) div FIVE_MIN"
  have n0: "0 \<le> ?n" using assms(1) FIVE_MIN_pos by (simp add: pos_imp_zdiv_nonneg_iff)
  have ne: "[0 .. ?n] \<noteq> []" using n0 by simp
  show "date_range_5T lo hi \<noteq> []" using ne by (simp add: date_range_5T_def)
  have hd0: "hd [0 .. ?n] = 0" using n0 by (simp add: upto.simps)
  show "hd (date_range_5T lo hi) = lo"
    using ne hd0 by (simp add: date_range_5T_def hd_map)
  have lastn: "last [0 .. ?n] = ?n" using n0 by (simp add: upto_rec2)
  have "FIVE_MIN dvd hi - lo" using assms(2,3) by (rule dvd_diff [rotated])
  then have "?n * FIVE_MIN = hi - lo" by simp
  then show "last (date_range_5T lo hi) = hi"
    using ne lastn by (simp add: date_range_5T_def last_map)
  fix i assume "Suc i < length (date_range_5T lo hi)"
  then have i: "Suc i < length [0 .. ?n]" by (simp add: date_range_5T_def)
  then have "0 + int (Suc i) \<le> ?n" "0 + int i \<le> ?n" by auto
  then have "[0 .. ?n] ! Suc i = 0 + int (Suc i)" "[0 .. ?n] ! i = 0 + int i"
    by (simp_all only: nth_upto)
  then show "date_range_5T lo hi ! Suc i = date_range_5T lo hi ! i + FIVE_MIN"
    using i by (simp add: date_range_5T_def algebra_simps)
qed


text \<open>
  C7. For a non-empty set of call timestamps \<open>build_5min_series\<close> returns a series that
  starts at the slot of the earliest call, ends at the slot of the latest call, advances
  by exactly one slot width from row to row, and gives every slot the number of calls
  that fall into it, hence 0 for a slot no call falls into.
\<close>

theorem build_5min_series_contiguous:
  assumes "stamps \<noteq> []"
  shows "\<exists>rows. build_5min_series stamps = Inr rows
     \<and> rows \<noteq> []
     \<and> sr_start (hd rows) = floor_5min (Min (set stamps))
     \<and> sr_start (last rows) = floor_5min (Max (set stamps))
     \<and> (\<forall>i. Suc i < length rows \<longrightarrow> sr_start (rows ! Suc i) = sr_start (rows ! i) + FIVE_MIN)
     \<and> (\<forall>row \<in> set rows.
           sr_count row = int (length (filter (\<lambda>t. floor_5min t = sr_start row) stamps))
           \<and> (sr_start row \<notin> floor_5min ` set stamps \<longrightarrow> sr_count row = 0))"
proof -
  let ?starts = "map floor_5min stamps"
  let ?lo = "Min (set ?starts)" and ?hi = "Max (set ?starts)"
  let ?mk = "\<lambda>s. \<lparr>sr_start = s,
                    sr_count = (case group_sizes ?starts s of None \<Rightarrow> 0 | Some c \<Rightarrow> c),
                    sr_w = (if weekday_of s < 5 then 1 else 0),
                    sr_tau = minute_of_day s div 5\<rparr>"
  let ?idx = "date_range_5T ?lo ?hi"
  let ?rows = "map ?mk ?idx"
  have fin: "finite (set stamps)" "set stamps \<noteq> {}" using assms by auto
  have lo: "?lo = floor_5min (Min (set stamps))"
    using mono_Min_commute [OF floor_5min_mono fin] by simp
  have hi: "?hi = floor_5min (Max (set stamps))"
    using mono_Max_commute [OF floor_5min_mono fin] by simp
  have lohi: "?lo \<le> ?hi" using fin by simp
  have dv: "FIVE_MIN dvd ?lo" "FIVE_MIN dvd ?hi"
    unfolding lo hi by (rule floor_5min_dvd)+
  note dr = date_range_5T_props [OF lohi dv]
  have run: "build_5min_series stamps = Inr ?rows"
    using assms by (simp add: build_5min_series_def Let_def)
  have ne: "?rows \<noteq> []" using dr(1) by simp
  have h: "sr_start (hd ?rows) = floor_5min (Min (set stamps))"
    using dr(1,2) lo by (simp add: hd_map)
  have l: "sr_start (last ?rows) = floor_5min (Max (set stamps))"
    using dr(1,3) hi by (simp add: last_map)
  have step: "\<forall>i. Suc i < length ?rows \<longrightarrow>
                sr_start (?rows ! Suc i) = sr_start (?rows ! i) + FIVE_MIN"
    using dr(4) by simp
  have cnt: "sr_count (?mk s) = int (length (filter (\<lambda>t. floor_5min t = s) stamps))" for s
  proof (cases "s \<in> set ?starts")
    case True
    then show ?thesis by (simp add: group_sizes_def count_list_map_filter)
  next
    case False
    then have "filter (\<lambda>t. floor_5min t = s) stamps = []"
      by (auto simp: filter_empty_conv)
    with False show ?thesis by (simp add: group_sizes_def)
  qed
  have zero: "s \<notin> floor_5min ` set stamps \<Longrightarrow> sr_count (?mk s) = 0" for s
    by (simp add: group_sizes_def)
  have all: "\<forall>row \<in> set ?rows.
           sr_count row = int (length (filter (\<lambda>t. floor_5min t = sr_start row) stamps))
           \<and> (sr_start row \<notin> floor_5min ` set stamps \<longrightarrow> sr_count row = 0)"
  proof
    fix row assume "row \<in> set ?rows"
    then obtain s where s: "row = ?mk s" by auto
    have st: "sr_start row = s" using s by simp
    show "sr_count row = int (length (filter (\<lambda>t. floor_5min t = sr_start row) stamps))
           \<and> (sr_start row \<notin> floor_5min ` set stamps \<longrightarrow> sr_count row = 0)"
      unfolding st unfolding s using cnt [of s] zero [of s] by blast
  qed
  from run ne h l step all show ?thesis by blast
qed


theorem build_5min_series_contiguous_witness:
  "[0, 900000000001, 5, 600000000000 :: int] \<noteq> []
   \<and> build_5min_series [0, 900000000001, 5, 600000000000]
     = Inr [\<lparr>sr_start = 0, sr_count = 2, sr_w = 1, sr_tau = 0\<rparr>,
            \<lparr>sr_start = 300000000000, sr_count = 0, sr_w = 1, sr_tau = 1\<rparr>,
            \<lparr>sr_start = 600000000000, sr_count = 1, sr_w = 1, sr_tau = 2\<rparr>,
            \<lparr>sr_start = 900000000000, sr_count = 1, sr_w = 1, sr_tau = 3\<rparr>]"
proof -
  have ne: "[0, 900000000001, 5, 600000000000 :: int] \<noteq> []" by simp
  have ev: "build_5min_series [0, 900000000001, 5, 600000000000]
     = Inr [\<lparr>sr_start = 0, sr_count = 2, sr_w = 1, sr_tau = 0\<rparr>,
            \<lparr>sr_start = 300000000000, sr_count = 0, sr_w = 1, sr_tau = 1\<rparr>,
            \<lparr>sr_start = 600000000000, sr_count = 1, sr_w = 1, sr_tau = 2\<rparr>,
            \<lparr>sr_start = 900000000000, sr_count = 1, sr_w = 1, sr_tau = 3\<rparr>]"
    by code_simp
  show ?thesis
    using build_5min_series_contiguous [OF ne] ev by simp
qed

subsection \<open>C9: order of the reported percentiles\<close>

lemma np_percentile_lin_interp:
  "np_percentile x q = lin_interp (sort x) (q / 100 * of_nat (length x - 1))"
  by (simp add: np_percentile_def lin_interp_def Let_def)

lemma lin_interp_bounds:
  assumes s: "sorted a" and v: "0 \<le> v" "v \<le> of_nat (length a - 1)" and ne: "a \<noteq> []"
  shows "a ! nat \<lfloor>v\<rfloor> \<le> lin_interp a v"
    and "lin_interp a v \<le> a ! min (nat \<lfloor>v\<rfloor> + 1) (length a - 1)"
proof -
  let ?lo = "nat \<lfloor>v\<rfloor>" and ?n = "length a"
  let ?hi = "min (?lo + 1) (?n - 1)"
  have fl0: "0 \<le> \<lfloor>v\<rfloor>" using v(1) by simp
  have "\<lfloor>v\<rfloor> \<le> int (?n - 1)" using v(2) by (simp add: floor_le_iff)
  then have lo_le: "?lo \<le> ?n - 1" using fl0 by linarith
  have n: "0 < ?n" using ne by simp
  have hi_lt: "?hi < ?n" using n by (simp add: min_less_iff_disj)
  have lo_hi: "?lo \<le> ?hi" using lo_le by simp
  have d: "a ! ?lo \<le> a ! ?hi" using s lo_hi hi_lt by (rule sorted_nth_mono)
  have lo_v: "of_nat ?lo = (of_int \<lfloor>v\<rfloor> :: rat)" using fl0 by simp
  have g0: "0 \<le> v - of_nat ?lo" unfolding lo_v by simp
  have g1: "v - of_nat ?lo \<le> 1" unfolding lo_v by linarith
  have m0: "0 \<le> (v - of_nat ?lo) * (a ! ?hi - a ! ?lo)"
    using g0 d by simp
  have m1: "(v - of_nat ?lo) * (a ! ?hi - a ! ?lo) \<le> 1 * (a ! ?hi - a ! ?lo)"
    using g1 d by (intro mult_right_mono) simp_all
  show "a ! ?lo \<le> lin_interp a v" using m0 by (simp add: lin_interp_def Let_def)
  show "lin_interp a v \<le> a ! ?hi" using m1 by (simp add: lin_interp_def Let_def)
qed

lemma lin_interp_mono:
  assumes s: "sorted a" and ne: "a \<noteq> []"
    and v: "0 \<le> v1" "v1 \<le> v2" "v2 \<le> of_nat (length a - 1)"
  shows "lin_interp a v1 \<le> lin_interp a v2"
proof -
  let ?l1 = "nat \<lfloor>v1\<rfloor>" and ?l2 = "nat \<lfloor>v2\<rfloor>" and ?n = "length a"
  have v1n: "v1 \<le> of_nat (?n - 1)" and v20: "0 \<le> v2" using v by simp_all
  have l12: "?l1 \<le> ?l2" using v(2) by (simp add: floor_mono nat_mono)
  have fl0: "0 \<le> \<lfloor>v2\<rfloor>" using v20 by simp
  have "\<lfloor>v2\<rfloor> \<le> int (?n - 1)" using v(3) by (simp add: floor_le_iff)
  then have l2n: "?l2 \<le> ?n - 1" using fl0 by linarith
  have n: "0 < ?n" using ne by simp
  show ?thesis
  proof (cases "?l1 = ?l2")
    case True
    let ?hi = "min (?l1 + 1) (?n - 1)"
    have "?l1 \<le> ?hi" "?hi < ?n" using l2n True n by (simp_all add: min_less_iff_disj)
    with s have d: "a ! ?l1 \<le> a ! ?hi" by (rule sorted_nth_mono)
    have "(v1 - of_nat ?l1) * (a ! ?hi - a ! ?l1) \<le> (v2 - of_nat ?l1) * (a ! ?hi - a ! ?l1)"
      using v(2) d by (intro mult_right_mono) simp_all
    then show ?thesis using True by (simp add: lin_interp_def Let_def)
  next
    case False
    with l12 have lt: "?l1 + 1 \<le> ?l2" by simp
    let ?hi = "min (?l1 + 1) (?n - 1)"
    have "?hi \<le> ?l2" using lt by simp
    moreover have "?l2 < ?n" using l2n n by linarith
    ultimately have "a ! ?hi \<le> a ! ?l2" using s by (intro sorted_nth_mono)
    moreover have "lin_interp a v1 \<le> a ! ?hi"
      using lin_interp_bounds(2) [OF s v(1) v1n ne] .
    moreover have "a ! ?l2 \<le> lin_interp a v2"
      using lin_interp_bounds(1) [OF s v20 v(3) ne] .
    ultimately show ?thesis by linarith
  qed
qed

lemma np_percentile_mono:
  assumes "x \<noteq> []" "0 \<le> q1" "q1 \<le> q2" "q2 \<le> 100"
  shows "np_percentile x q1 \<le> np_percentile x q2"
proof -
  let ?m = "of_nat (length x - 1) :: rat"
  have m0: "0 \<le> ?m" by simp
  have a: "0 \<le> q1 / 100 * ?m" using assms(2) by simp
  have b: "q1 / 100 * ?m \<le> q2 / 100 * ?m"
    using assms(3) m0 by (intro mult_right_mono) simp_all
  have "q2 / 100 * ?m \<le> 1 * ?m"
    using assms(4) m0 by (intro mult_right_mono) simp_all
  then have c: "q2 / 100 * ?m \<le> of_nat (length (sort x) - 1)" by simp
  have ne: "sort x \<noteq> []" using assms(1) by (metis length_0_conv length_sort)
  show ?thesis
    unfolding np_percentile_lin_interp
    by (rule lin_interp_mono [OF sorted_sort ne a b c])
qed

lemma pctl_ordered:
  assumes "x \<noteq> []"
  shows "metric_le (pctl x 90) (pctl x 95) \<and> metric_le (pctl x 95) (pctl x 99)"
  using assms np_percentile_mono [of x 90 95] np_percentile_mono [of x 95 99]
  by (simp add: pctl_def)

text \<open>
  C9. For every non-empty wait-time sample \<open>P90 \<le> P95 \<le> P99\<close> as \<open>pctl\<close> computes
  them, and so in every row of the summary table \<open>summarize_task3\<close> builds (each
  strategy's group of a call log is non-empty).
\<close>

theorem summary_percentiles_ordered:
  "(x \<noteq> [] \<longrightarrow> metric_le (pctl x 90) (pctl x 95) \<and> metric_le (pctl x 95) (pctl x 99))
   \<and> (\<forall>row \<in> set (summarize_task3 has_empty_travel df long_wait_threshold).
         metric_le (s_P90 row) (s_P95 row) \<and> metric_le (s_P95 row) (s_P99 row))"
proof (intro conjI impI ballI)
  assume "x \<noteq> []"
  then show "metric_le (pctl x 90) (pctl x 95)" "metric_le (pctl x 95) (pctl x 99)"
    using pctl_ordered by blast+
next
  fix row assume "row \<in> set (summarize_task3 has_empty_travel df long_wait_threshold)"
  then obtain strat where st: "strat \<in> set (map cm_strategy df)"
    and row: "row = summarize_group has_empty_travel long_wait_threshold strat
                      (filter (\<lambda>x. cm_strategy x = strat) df)"
    by (auto simp: summarize_task3_def)
  let ?w = "map cm_wait_time (filter (\<lambda>x. cm_strategy x = strat) df)"
  from st have "?w \<noteq> []" by (auto simp: filter_empty_conv)
  from pctl_ordered [OF this]
  show "metric_le (s_P90 row) (s_P95 row)" "metric_le (s_P95 row) (s_P99 row)"
    unfolding row by (simp_all add: summarize_group_def Let_def)
qed

text \<open>The sample 14, 20: P90 = 19.4, P95 = 19.7, P99 = 19.94.\<close>

theorem summary_percentiles_ordered_witness:
  "[14, 20 :: rat] \<noteq> []
   \<and> metric_le (pctl [14, 20] 90) (pctl [14, 20] 95)
   \<and> metric_le (pctl [14, 20] 95) (pctl [14, 20] 99)
   \<and> summarize_task3 True
        [\<lparr>cm_strategy = ''lobby'', cm_wait_time = 14, cm_empty_travel = 0\<rparr>,
         \<lparr>cm_strategy = ''lobby'', cm_wait_time = 20, cm_empty_travel = 0\<rparr>] 15
      = [\<lparr>s_strategy = ''lobby'', s_N = 2, s_AWT = 17, s_P90 = Val (97 / 5),
           s_P95 = Val (197 / 10), s_P99 = Val (997 / 50), s_LongWait = 50,
           s_EmptyTravel_mean = Val 0\<rparr>]"
proof -
  have ne: "[14, 20 :: rat] \<noteq> []" by simp
  have ev: "summarize_task3 True
        [\<lparr>cm_strategy = ''lobby'', cm_wait_time = 14, cm_empty_travel = 0\<rparr>,
         \<lparr>cm_strategy = ''lobby'', cm_wait_time = 20, cm_empty_travel = 0\<rparr>] 15
      = [\<lparr>s_strategy = ''lobby'', s_N = 2, s_AWT = 17, s_P90 = Val (97 / 5),
           s_P95 = Val (197 / 10), s_P99 = Val (997 / 50), s_LongWait = 50,
           s_EmptyTravel_mean = Val 0\<rparr>]"
    by code_simp
  from summary_percentiles_ordered [of "[14, 20]"] ne
  have "metric_le (pctl [14, 20] 90) (pctl [14, 20] 95)
        \<and> metric_le (pctl [14, 20] 95) (pctl [14, 20] 99)"
    by blast
  with ne ev show ?thesis by blast
qed

subsection \<open>C6: the AR(1) coefficient on identical residuals\<close>

lemma mu_lookup_typed:
  assumes "sr_w x = 0 \<or> sr_w x = 1" "0 \<le> sr_tau x" "sr_tau x < N_INTERVALS_PER_DAY"
  shows "mu_lookup df (sr_w x) (sr_tau x) = Inr (baseline_mu df (sr_w x) (sr_tau x))"
  using assms by (auto simp: mu_lookup_def N_INTERVALS_PER_DAY_def)

lemma deviations_typed:
  assumes "list_all (\<lambda>x. (sr_w x = 0 \<or> sr_w x = 1)
                          \<and> 0 \<le> sr_tau x \<and> sr_tau x < N_INTERVALS_PER_DAY) xs"
  shows "deviations df xs = Inr (map (residual df) xs)"
  using assms
proof (induction xs)
  case Nil
  show ?case by simp
next
  case (Cons x xs)
  then have "mu_lookup df (sr_w x) (sr_tau x) = Inr (baseline_mu df (sr_w x) (sr_tau x))"
    by (intro mu_lookup_typed) simp_all
  with Cons show ?case by (simp add: residual_def)
qed

lemma fit_phi_is_number: "\<exists>v. fit_phi pairs = Val v"
  by (simp add: fit_phi_def np_divide_def Let_def)

lemma sum_list_shifted:
  "sum_list (map (\<lambda>y. of_int (sr_count y) - m) ys)
     = (of_int (sum_list (map sr_count ys)) :: rat) - of_nat (length ys) * m"
  by (induction ys) (simp_all add: algebra_simps)

lemma group_residual_sum:
  "sum_list (map (residual df) (filter (\<lambda>y. sr_w y = w \<and> sr_tau y = t) df)) = 0"
proof -
  let ?G = "filter (\<lambda>y. sr_w y = w \<and> sr_tau y = t) df"
  have "map (residual df) ?G = map (\<lambda>y. of_int (sr_count y) - baseline_mu df w t) ?G"
    by (rule map_cong) (auto simp: residual_def)
  then have "sum_list (map (residual df) ?G)
      = of_int (sum_list (map sr_count ?G)) - of_nat (length ?G) * baseline_mu df w t"
    by (simp only: sum_list_shifted)
  also have "\<dots> = 0"
    by (cases "?G = []") (simp_all add: baseline_mu_def Let_def)
  finally show ?thesis .
qed

lemma sum_list_const:
  "\<forall>y \<in> set ys. f y = (c :: rat) \<Longrightarrow> sum_list (map f ys) = of_nat (length ys) * c"
  by (induction ys) (simp_all add: algebra_simps)

lemma identical_residuals_vanish:
  assumes same: "\<forall>y \<in> set df. sr_w y = r \<longrightarrow> residual df y = c"
    and x: "x \<in> set df" "sr_w x = r"
  shows "c = 0"
proof -
  let ?G = "filter (\<lambda>y. sr_w y = r \<and> sr_tau y = sr_tau x) df"
  have mem: "x \<in> set ?G" using x by simp
  then have len: "0 < length ?G" by (metis length_pos_if_in_set)
  have "\<forall>y \<in> set ?G. residual df y = c" using same by simp
  then have "sum_list (map (residual df) ?G) = of_nat (length ?G) * c"
    by (rule sum_list_const)
  then have "of_nat (length ?G) * c = 0" by (simp only: group_residual_sum)
  with len show ?thesis by simp
qed

lemma lag_pairs_fst:
  assumes "(a, b) \<in> set (lag_pairs r (map sr_w xs) (map f xs))"
  shows "\<exists>y \<in> set xs. sr_w y = r \<and> a = f y"
  using assms
proof (induction xs)
  case Nil
  then show ?case by simp
next
  case (Cons x xs)
  show ?case
  proof (cases xs)
    case Nil
    with Cons.prems show ?thesis by simp
  next
    case (Cons x' xs')
    with Cons.prems Cons.IH show ?thesis
      by (auto split: if_splits)
  qed
qed

lemma fit_phi_zero_pairs:
  assumes "\<forall>p \<in> set pairs. fst p = 0"
  shows "fit_phi pairs = Val 0"
proof -
  have "sum_list (map (\<lambda>(x, yv). x * x) pairs) = 0"
    using assms by (induction pairs) auto
  then show ?thesis by (simp add: fit_phi_def Let_def)
qed

text \<open>
  C6. On every well-typed training series the fit returns, and the coefficient of either
  regime is a number: the quotient is taken only with a non-zero denominator. If all
  residuals of regime \<open>r\<close> (count minus fitted baseline mean) are identical, the
  coefficient of \<open>r\<close> is 0: residuals against the per-slot mean sum to zero within
  each slot group, so identical residuals are all zero and the guard on the denominator
  applies.
\<close>

theorem ar_coefficient_zero_variance:
  assumes wt: "well_typed_series df" and r: "r = 0 \<or> r = 1"
  shows "\<exists>mu phi. estimate_baseline_and_phi df = Inr (mu, phi)
           \<and> (\<exists>v. phi r = Some (Val v))
           \<and> ((\<exists>c. \<forall>y \<in> set df. sr_w y = r \<longrightarrow> residual df y = c) \<longrightarrow> phi r = Some (Val 0))"
proof -
  let ?e = "map (residual df) df" and ?w = "map sr_w df"
  let ?phi = "[0 \<mapsto> fit_phi (lag_pairs 0 ?w ?e), 1 \<mapsto> fit_phi (lag_pairs 1 ?w ?e)]"
  from wt have ne: "df \<noteq> []" and ty: "list_all (\<lambda>x. (sr_w x = 0 \<or> sr_w x = 1)
                          \<and> 0 \<le> sr_tau x \<and> sr_tau x < N_INTERVALS_PER_DAY) df"
    by (simp_all add: well_typed_series_def)
  have run: "estimate_baseline_and_phi df = Inr (baseline_mu df, ?phi)"
    using ne by (simp add: estimate_baseline_and_phi_def deviations_typed [OF ty] Let_def)
  have phir: "?phi r = Some (fit_phi (lag_pairs r ?w ?e))" using r by auto
  have num: "\<exists>v. ?phi r = Some (Val v)"
    unfolding phir using fit_phi_is_number by simp
  have zero: "?phi r = Some (Val 0)" if "\<exists>c. \<forall>y \<in> set df. sr_w y = r \<longrightarrow> residual df y = c"
  proof -
    from that obtain c where c: "\<forall>y \<in> set df. sr_w y = r \<longrightarrow> residual df y = c" by blast
    have "\<forall>p \<in> set (lag_pairs r ?w ?e). fst p = 0"
    proof
      fix p assume p: "p \<in> set (lag_pairs r ?w ?e)"
      then have "(fst p, snd p) \<in> set (lag_pairs r ?w ?e)" by simp
      from lag_pairs_fst [OF this] obtain y where y: "y \<in> set df" "sr_w y = r"
        "fst p = residual df y" by blast
      from identical_residuals_vanish [OF c y(1,2)] c y show "fst p = 0" by simp
    qed
    then show ?thesis unfolding phir by (simp add: fit_phi_zero_pairs)
  qed
  from run num zero show ?thesis by blast
qed

text \<open>Three weekday slots, one observation each: all residuals are 0 and \<open>phi[1] = 0\<close>.\<close>

theorem ar_coefficient_zero_variance_witness:
  "well_typed_series [\<lparr>sr_start = 0, sr_count = 3, sr_w = 1, sr_tau = 0\<rparr>,
                      \<lparr>sr_start = 300000000000, sr_count = 4, sr_w = 1, sr_tau = 1\<rparr>,
                      \<lparr>sr_start = 600000000000, sr_count = 5, sr_w = 1, sr_tau = 2\<rparr>]
   \<and> (\<exists>mu phi. estimate_baseline_and_phi
                   [\<lparr>sr_start = 0, sr_count = 3, sr_w = 1, sr_tau = 0\<rparr>,
                    \<lparr>sr_start = 300000000000, sr_count = 4, sr_w = 1, sr_tau = 1\<rparr>,
                    \<lparr>sr_start = 600000000000, sr_count = 5, sr_w = 1, sr_tau = 2\<rparr>] = Inr (mu, phi)
                 \<and> phi 1 = Some (Val 0))"
proof -
  let ?df = "[\<lparr>sr_start = 0, sr_count = 3, sr_w = 1, sr_tau = 0\<rparr>,
              \<lparr>sr_start = 300000000000, sr_count = 4, sr_w = 1, sr_tau = 1\<rparr>,
              \<lparr>sr_start = 600000000000, sr_count = 5, sr_w = 1, sr_tau = 2\<rparr>]"
  have wt: "well_typed_series ?df" by code_simp
  have r: "(1 :: int) = 0 \<or> (1 :: int) = 1" by simp
  have same: "\<exists>c. \<forall>y \<in> set ?df. sr_w y = 1 \<longrightarrow> residual ?df y = c"
    by (rule exI [of _ 0]) (simp add: residual_def baseline_mu_def)
  from ar_coefficient_zero_variance [OF wt r] same
  have "\<exists>mu phi. estimate_baseline_and_phi ?df = Inr (mu, phi) \<and> phi 1 = Some (Val 0)"
    by blast
  with wt show ?thesis by blast
qed


end
